theory Spec2Isabelle
  imports Complex_Main
begin

section \<open>JavaScript values used by the component\<close>

text \<open>
  A JavaScript number, as far as the component compares and indexes with it: a finite
  value (kept exact, as a rational), \<open>NaN\<close>, or one of the infinities. The component
  never does arithmetic on an unchecked number; it only compares it and uses it as an
  array key.
\<close>

datatype jsnum = Num rat | NaN | PosInf | NegInf

text \<open>The relational operators \<open><\<close> and \<open>>=\<close>; every comparison with \<open>NaN\<close> is false.\<close>

fun js_lt :: "jsnum \<Rightarrow> jsnum \<Rightarrow> bool" where
  "js_lt NaN b = False"
| "js_lt a NaN = False"
| "js_lt (Num a) (Num b) = (a < b)"
| "js_lt (Num a) PosInf = True"
| "js_lt (Num a) NegInf = False"
| "js_lt PosInf b = False"
| "js_lt NegInf NegInf = False"
| "js_lt NegInf b = True"

definition js_ge :: "jsnum \<Rightarrow> jsnum \<Rightarrow> bool" where
  "js_ge a b = (a \<noteq> NaN \<and> b \<noteq> NaN \<and> \<not> js_lt a b)"

text \<open>
  Arithmetic on numbers is IEEE 754 double arithmetic: the exact result, rounded. The
  rounding is a parameter of everything that computes with layout values; \<open>toDouble\<close>
  is the rounding of the platform, to the nearest double with ties to the even
  significand (53 bits, exponents from \<open>-1022\<close>, results from \<open>2^1024\<close> on become an
  infinity). Negation, \<open>Math.abs\<close> and comparison are
  exact.
\<close>

type_synonym rounding = "rat \<Rightarrow> jsnum"

function bitLength :: "int \<Rightarrow> int" where
  "bitLength n = (if n \<le> 0 then 0 else bitLength (n div 2) + 1)"
  by pat_completeness auto
termination
  by (relation "measure nat") auto

declare bitLength.simps [simp del]

definition pow2 :: "int \<Rightarrow> rat" where
  "pow2 k = (if 0 \<le> k then of_int (2 ^ nat k) else 1 / of_int (2 ^ nat (- k)))"

definition roundHalfEven :: "rat \<Rightarrow> int" where
  "roundHalfEven x =
     (let f = \<lfloor>x\<rfloor>; rest = x - of_int f
      in if rest < 1 / 2 then f
         else if 1 / 2 < rest then f + 1
         else if even f then f else f + 1)"

definition toDouble :: rounding where
  "toDouble q =
     (if q = 0 then Num 0
      else
        (let a = \<bar>q\<bar>;
             (n, d) = quotient_of a;
             e0 = bitLength n - bitLength d;
             e = (if pow2 e0 \<le> a then e0 else e0 - 1);
             ulp = pow2 (max e (- 1022) - 52);
             m = roundHalfEven (a / ulp)
         in if 1024 \<le> e \<or> e = 1023 \<and> m = 9007199254740992
            then (if 0 < q then PosInf else NegInf)
            else Num (if 0 < q then of_int m * ulp else - (of_int m * ulp))))"

text \<open>The double a decimal literal denotes, as the exact rational it is.\<close>

definition double :: "rat \<Rightarrow> rat" where
  "double q = (case toDouble q of Num d \<Rightarrow> d | _ \<Rightarrow> 0)"

fun js_neg :: "jsnum \<Rightarrow> jsnum" where
  "js_neg (Num a) = Num (- a)"
| "js_neg NaN = NaN"
| "js_neg PosInf = NegInf"
| "js_neg NegInf = PosInf"

fun js_abs :: "jsnum \<Rightarrow> jsnum" where
  "js_abs (Num a) = Num \<bar>a\<bar>"
| "js_abs NaN = NaN"
| "js_abs PosInf = PosInf"
| "js_abs NegInf = PosInf"

fun js_add :: "rounding \<Rightarrow> jsnum \<Rightarrow> jsnum \<Rightarrow> jsnum" where
  "js_add rnd NaN b = NaN"
| "js_add rnd a NaN = NaN"
| "js_add rnd (Num a) (Num b) = rnd (a + b)"
| "js_add rnd PosInf NegInf = NaN"
| "js_add rnd NegInf PosInf = NaN"
| "js_add rnd PosInf b = PosInf"
| "js_add rnd NegInf b = NegInf"
| "js_add rnd a PosInf = PosInf"
| "js_add rnd a NegInf = NegInf"

definition js_sub :: "rounding \<Rightarrow> jsnum \<Rightarrow> jsnum \<Rightarrow> jsnum" where
  "js_sub rnd a b = js_add rnd a (js_neg b)"

text \<open>\<open>a / 2\<close>.\<close>

fun js_half :: "rounding \<Rightarrow> jsnum \<Rightarrow> jsnum" where
  "js_half rnd (Num a) = rnd (a / 2)"
| "js_half rnd a = a"

text \<open>
  \<open>xs[key]\<close> on an array: the key names an element only when it is a non-negative
  integer below the length; every other key yields \<open>undefined\<close> (here \<open>None\<close>).
\<close>

definition array_index :: "'a list \<Rightarrow> jsnum \<Rightarrow> nat option" where
  "array_index xs key =
     (case key of
        Num q \<Rightarrow>
          (if 0 \<le> q \<and> of_int \<lfloor>q\<rfloor> = q \<and> nat \<lfloor>q\<rfloor> < length xs
           then Some (nat \<lfloor>q\<rfloor>) else None)
      | _ \<Rightarrow> None)"

text \<open>\<open>xs.forEach((x, index) => ...)\<close> where the callback mutates the element it is given.\<close>

primrec forEach_from :: "nat \<Rightarrow> ('a \<Rightarrow> nat \<Rightarrow> 'a) \<Rightarrow> 'a list \<Rightarrow> 'a list" where
  "forEach_from i f [] = []"
| "forEach_from i f (x # xs) = f x i # forEach_from (Suc i) f xs"

definition forEach :: "('a \<Rightarrow> nat \<Rightarrow> 'a) \<Rightarrow> 'a list \<Rightarrow> 'a list" where
  "forEach f xs = forEach_from 0 f xs"

section \<open>The document: elements, slides, thumbnail buttons\<close>

text \<open>
  The two source files are two variants of the same custom element. \<open>First\<close> is
  \<open>assets/vertical-slideshow.js\<close> (cached slide height, stored thumbnail handlers,
  16 ms debounce); \<open>Second\<close> is the variant with wheel snapping, \<open>next()\<close> and
  \<open>previous()\<close> (50 ms debounce).
\<close>

datatype variant = First | Second

text \<open>A descendant element of a slide, with the attributes the component reads or writes.\<close>

record element =
  tag :: string
  data_src :: "string option"
  loading :: "string option"
  src :: "string option"
  alt :: "string option"
  data_thumbnail :: "string option"
  innerHTML :: string

text \<open>
  An event listener is identified by the function object. \<open>handleScroll\<close> and
  \<open>handleWheel\<close> are instance fields, the same object at every use. An arrow function
  written inside a \<open>forEach\<close> callback is a new object each time the expression is
  evaluated: the first argument of the closure constructors is that identity, the
  second the captured \<open>index\<close>.
\<close>

datatype handler =
    HandleScroll
  | HandleWheel
  | ClickClosure nat nat
  | PointerClosure nat nat

type_synonym listener = "string \<times> handler"

definition addEventListener :: "string \<Rightarrow> handler \<Rightarrow> listener list \<Rightarrow> listener list" where
  "addEventListener ty h ls = (if (ty, h) \<in> set ls then ls else ls @ [(ty, h)])"

definition removeEventListener :: "string \<Rightarrow> handler \<Rightarrow> listener list \<Rightarrow> listener list" where
  "removeEventListener ty h ls = removeAll (ty, h) ls"

text \<open>What a thumbnail button shows after \<open>#initializeThumbnails\<close>.\<close>

datatype alt_text = Alt string | SlideNumber nat

datatype thumb_content =
    Markup string
  | ThumbnailImg string alt_text string
  | Label nat

record button =
  aria_selected :: "string option"
  content :: thumb_content
  listeners :: "listener list"

text \<open>
  A slide: its two attributes, its layout as the browser reports it (\<open>offsetHeight\<close>,
  and top and height of \<open>getBoundingClientRect()\<close>), and its descendants in document
  order.
\<close>

record slide =
  data_slide_index :: "nat option"
  aria_hidden :: "string option"
  offsetHeight :: nat
  rect_top :: rat
  rect_height :: rat
  descendants :: "element list"

text \<open>
  What \<open>connectedCallback\<close> finds in the document: the children of the media container,
  and the buttons matching \<open>.vertical-slideshow__thumbnail\<close> under the thumbnails
  container (\<open>None\<close> when that ref is absent).
\<close>

record dom =
  children :: "slide list"
  thumbnails :: "button list option"

section \<open>The component state\<close>

datatype ScrollBehavior = Auto | Instant | Smooth

record options =
  behavior :: "ScrollBehavior option"

definition default_options :: options where
  "default_options = \<lparr>behavior = Some Smooth\<rparr>"

text \<open>The scroll the component asks the browser for; slides are named by their position.\<close>

datatype scroll_request =
    AssignScrollTop nat
  | ScrollTo nat ScrollBehavior
  | ScrollIntoView nat "ScrollBehavior option"

record custom_event =
  event_type :: string
  detail_index :: nat
  detail_slide :: nat

text \<open>
  The private fields and \<open>refs\<close> of the instance, followed by what the instance has
  done to the browser: the listeners on the media container, its rectangle, the scroll
  requests made, the pending timeouts \<open>(id, delay in ms)\<close> (each one clears
  \<open>#isScrolling\<close>), the number of intersection observations awaiting their entries,
  and the custom events dispatched. Elements are held in the registry itself: the lists
  under \<open>slides\<close> and \<open>thumbnailButtons\<close> are the DOM elements, and an element is
  referred to by its position.
\<close>

record component =
  slides :: "slide list option"
  thumbnailButtons :: "button list option"
  isScrolling :: bool
  scrollTimeout :: "nat option"
  slideHeight :: "nat option"
  thumbnailClickHandlers :: "(nat \<times> handler \<times> handler) list"
  containerListeners :: "listener list"
  container_top :: rat
  container_height :: rat
  scrollRequests :: "scroll_request list"
  timers :: "(nat \<times> nat) list"
  nextTimer :: nat
  nextClosure :: nat
  observers :: nat
  dispatched :: "custom_event list"

definition newComponent :: component where
  "newComponent =
     \<lparr>slides = None, thumbnailButtons = None, isScrolling = False, scrollTimeout = None,
      slideHeight = None, thumbnailClickHandlers = [], containerListeners = [],
      container_top = 0, container_height = 0, scrollRequests = [], timers = [],
      nextTimer = 1, nextClosure = 0, observers = 0, dispatched = []\<rparr>"

definition debounceDelay :: "variant \<Rightarrow> nat" where
  "debounceDelay v = (case v of First \<Rightarrow> 16 | Second \<Rightarrow> 50)"

section \<open>Initialization\<close>

definition initializeSlides :: "variant \<Rightarrow> dom \<Rightarrow> component \<Rightarrow> component" where
  "initializeSlides v d s =
     (let s1 = s\<lparr>slides := Some (children d)\<rparr>;
          s2 = (case v of
                  First \<Rightarrow>
                    (if length (children d) > 0
                     then s1\<lparr>slideHeight := Some (offsetHeight (children d ! 0))\<rparr>
                     else s1)
                | Second \<Rightarrow> s1)
      in s2\<lparr>slides := Some (forEach
              (\<lambda>sl index. sl\<lparr>data_slide_index := Some index,
                               aria_hidden := Some (if index = 0 then ''false'' else ''true'')\<rparr>)
              (children d))\<rparr>)"

definition thumbnailFor :: "slide \<Rightarrow> nat \<Rightarrow> thumb_content" where
  "thumbnailFor sl index =
     (let thumbnailImage = find (\<lambda>e. tag e = ''img'') (descendants sl);
          thumbnailContent = find (\<lambda>e. data_thumbnail e \<noteq> None) (descendants sl)
      in case thumbnailContent of
           Some c \<Rightarrow> Markup (innerHTML c)
         | None \<Rightarrow>
             (case thumbnailImage of
                Some img \<Rightarrow>
                  ThumbnailImg
                    (case src img of None \<Rightarrow> [] | Some u \<Rightarrow> u)
                    (case alt img of
                       None \<Rightarrow> SlideNumber (index + 1)
                     | Some a \<Rightarrow> if a = [] then SlideNumber (index + 1) else Alt a)
                    ''vertical-slideshow__thumbnail-image''
              | None \<Rightarrow> Label (index + 1)))"

definition initializeThumbnails :: "dom \<Rightarrow> component \<Rightarrow> component" where
  "initializeThumbnails d s =
     (case thumbnails d of
        None \<Rightarrow> s
      | Some bs \<Rightarrow>
          (case slides s of
             None \<Rightarrow> s
           | Some ss \<Rightarrow>
               s\<lparr>thumbnailButtons := Some (forEach
                   (\<lambda>b index. if index < length ss
                                then b\<lparr>content := thumbnailFor (ss ! index) index\<rparr>
                                else b)
                   bs)\<rparr>))"

text \<open>
  One round of the \<open>forEach\<close> in \<open>#addThumbnailHandlers\<close>: two arrow functions are
  created and attached; the first variant also stores them in the
  \<open>#thumbnailClickHandlers\<close> map under the button.
\<close>

definition addThumbnailHandler :: "variant \<Rightarrow> nat \<Rightarrow> component \<Rightarrow> component" where
  "addThumbnailHandler v index s =
     (case thumbnailButtons s of
        None \<Rightarrow> s
      | Some bs \<Rightarrow>
          (let clickHandler = ClickClosure (nextClosure s) index;
               pointerHandler = PointerClosure (nextClosure s + 1) index;
               b = bs ! index;
               b' = b\<lparr>listeners := addEventListener ''pointerenter'' pointerHandler
                                     (addEventListener ''click'' clickHandler (listeners b))\<rparr>;
               s1 = s\<lparr>nextClosure := nextClosure s + 2,
                      thumbnailButtons := Some (bs[index := b'])\<rparr>
           in case v of
                First \<Rightarrow>
                  s1\<lparr>thumbnailClickHandlers :=
                        (index, clickHandler, pointerHandler) #
                        filter (\<lambda>(k, _). k \<noteq> index) (thumbnailClickHandlers s1)\<rparr>
              | Second \<Rightarrow> s1))"

definition addThumbnailHandlers :: "variant \<Rightarrow> component \<Rightarrow> component" where
  "addThumbnailHandlers v s =
     (case thumbnailButtons s of
        None \<Rightarrow> s
      | Some bs \<Rightarrow> fold (addThumbnailHandler v) [0..<length bs] s)"

text \<open>
  One round of the \<open>forEach\<close> in \<open>#removeThumbnailHandlers\<close>. The first variant looks the
  stored pair up and removes exactly those two functions. The second variant passes two
  newly written arrow functions to \<open>removeEventListener\<close>.
\<close>

definition removeThumbnailHandler :: "variant \<Rightarrow> nat \<Rightarrow> component \<Rightarrow> component" where
  "removeThumbnailHandler v index s =
     (case thumbnailButtons s of
        None \<Rightarrow> s
      | Some bs \<Rightarrow>
          (case v of
             First \<Rightarrow>
               (case map_of (thumbnailClickHandlers s) index of
                  None \<Rightarrow> s
                | Some (clickHandler, pointerHandler) \<Rightarrow>
                    (let b = bs ! index;
                         b' = b\<lparr>listeners := removeEventListener ''pointerenter'' pointerHandler
                                 (removeEventListener ''click'' clickHandler (listeners b))\<rparr>
                     in s\<lparr>thumbnailButtons := Some (bs[index := b']),
                          thumbnailClickHandlers :=
                            filter (\<lambda>(k, _). k \<noteq> index) (thumbnailClickHandlers s)\<rparr>))
           | Second \<Rightarrow>
               (let b = bs ! index;
                    b' = b\<lparr>listeners :=
                            removeEventListener ''pointerenter''
                              (PointerClosure (nextClosure s + 1) index)
                              (removeEventListener ''click''
                                 (ClickClosure (nextClosure s) index) (listeners b))\<rparr>
                in s\<lparr>nextClosure := nextClosure s + 2,
                     thumbnailButtons := Some (bs[index := b'])\<rparr>)))"

definition removeThumbnailHandlers :: "variant \<Rightarrow> component \<Rightarrow> component" where
  "removeThumbnailHandlers v s =
     (case thumbnailButtons s of
        None \<Rightarrow> s
      | Some bs \<Rightarrow> fold (removeThumbnailHandler v) [0..<length bs] s)"

text \<open>
  \<open>connectedCallback\<close> and \<open>disconnectedCallback\<close>. The calls into the base class
  \<open>Component\<close> come first in both and are not part of these two files; its
  \<open>requiredRefs\<close> make the media container present. A timeout id is truthy when it is
  not 0.
\<close>

definition connectedCallback :: "variant \<Rightarrow> dom \<Rightarrow> component \<Rightarrow> component" where
  "connectedCallback v d s =
     (let s1 = initializeSlides v d s;
          s2 = initializeThumbnails d s1;
          s3 = s2\<lparr>containerListeners :=
                    addEventListener ''scroll'' HandleScroll (containerListeners s2)\<rparr>;
          s4 = (case v of
                  First \<Rightarrow> s3
                | Second \<Rightarrow>
                    s3\<lparr>containerListeners :=
                          addEventListener ''wheel'' HandleWheel (containerListeners s3)\<rparr>)
      in addThumbnailHandlers v s4)"

definition clearTimeout :: "nat \<Rightarrow> component \<Rightarrow> component" where
  "clearTimeout ident s = s\<lparr>timers := filter (\<lambda>(i, _). i \<noteq> ident) (timers s)\<rparr>"

definition disconnectedCallback :: "variant \<Rightarrow> component \<Rightarrow> component" where
  "disconnectedCallback v s =
     (let s1 = s\<lparr>containerListeners :=
                   removeEventListener ''scroll'' HandleScroll (containerListeners s)\<rparr>;
          s2 = (case v of
                  First \<Rightarrow> s1
                | Second \<Rightarrow>
                    s1\<lparr>containerListeners :=
                          removeEventListener ''wheel'' HandleWheel (containerListeners s1)\<rparr>);
          s3 = removeThumbnailHandlers v s2
      in case scrollTimeout s3 of
           None \<Rightarrow> s3
         | Some ident \<Rightarrow> if ident \<noteq> 0 then clearTimeout ident s3 else s3)"

section \<open>Selection\<close>

definition updateActiveThumbnail :: "int \<Rightarrow> component \<Rightarrow> component" where
  "updateActiveThumbnail activeIndex s =
     (case thumbnailButtons s of
        None \<Rightarrow> s
      | Some bs \<Rightarrow>
          s\<lparr>thumbnailButtons := Some (forEach
              (\<lambda>b index. b\<lparr>aria_selected :=
                               Some (if int index = activeIndex then ''true'' else ''false'')\<rparr>)
              bs)\<rparr>)"

definition updateSlideVisibility :: "int \<Rightarrow> component \<Rightarrow> component" where
  "updateSlideVisibility activeIndex s =
     (case slides s of
        None \<Rightarrow> s
      | Some ss \<Rightarrow>
          s\<lparr>slides := Some (forEach
              (\<lambda>sl index. sl\<lparr>aria_hidden :=
                               Some (if int index \<noteq> activeIndex then ''true'' else ''false'')\<rparr>)
              ss)\<rparr>)"

text \<open>
  The body of the \<open>lazyElements.forEach\<close> callback, applied to the elements that
  \<open>querySelectorAll('[data-src], [loading="lazy"]')\<close> selects. \<open>element.dataset.src\<close>
  is truthy when the attribute is present and not the empty string.
\<close>

definition lazySelected :: "element \<Rightarrow> bool" where
  "lazySelected e = (data_src e \<noteq> None \<or> loading e = Some ''lazy'')"

definition loadElement :: "element \<Rightarrow> element" where
  "loadElement e =
     (if lazySelected e
      then (case data_src e of
              None \<Rightarrow> e
            | Some u \<Rightarrow> if u \<noteq> [] then e\<lparr>src := Some u, data_src := None\<rparr> else e)
      else e)"

definition loadSlideContent :: "nat \<Rightarrow> component \<Rightarrow> component" where
  "loadSlideContent index s =
     (case slides s of
        None \<Rightarrow> s
      | Some ss \<Rightarrow>
          (if index < length ss
           then s\<lparr>slides := Some (ss[index :=
                     (ss ! index)\<lparr>descendants := map loadElement (descendants (ss ! index))\<rparr>]),
                  dispatched := dispatched s @
                     [\<lparr>event_type = ''slide-content-loaded'',
                       detail_index = index, detail_slide = index\<rparr>]\<rparr>
           else s))"

definition setTimeout :: "nat \<Rightarrow> component \<Rightarrow> nat \<times> component" where
  "setTimeout delay s =
     (nextTimer s, s\<lparr>timers := timers s @ [(nextTimer s, delay)], nextTimer := nextTimer s + 1\<rparr>)"

text \<open>A pending timeout runs its callback, \<open>this.#isScrolling = false\<close>, once.\<close>

definition timeoutFires :: "nat \<Rightarrow> component \<Rightarrow> component" where
  "timeoutFires ident s =
     (if ident \<in> fst ` set (timers s)
      then (clearTimeout ident s)\<lparr>isScrolling := False\<rparr>
      else s)"

definition scrollToSlide :: "variant \<Rightarrow> nat \<Rightarrow> slide \<Rightarrow> options \<Rightarrow> component \<Rightarrow> component" where
  "scrollToSlide v index targetSlide opts s =
     (case v of
        First \<Rightarrow>
          (let h = (case slideHeight s of
                      None \<Rightarrow> offsetHeight targetSlide
                    | Some c \<Rightarrow> if c \<noteq> 0 then c else offsetHeight targetSlide);
               scrollTop = index * h
           in if behavior opts = Some Instant
              then s\<lparr>scrollRequests := scrollRequests s @ [AssignScrollTop scrollTop]\<rparr>
              else s\<lparr>scrollRequests := scrollRequests s @ [ScrollTo scrollTop Smooth]\<rparr>)
      | Second \<Rightarrow>
          s\<lparr>scrollRequests := scrollRequests s @ [ScrollIntoView index (behavior opts)]\<rparr>)"

definition selectSlide :: "variant \<Rightarrow> jsnum \<Rightarrow> options \<Rightarrow> component \<Rightarrow> component" where
  "selectSlide v index opts s =
     (case slides s of
        None \<Rightarrow> s
      | Some ss \<Rightarrow>
          (if js_lt index (Num 0) \<or> js_ge index (Num (of_nat (length ss))) then s
           else
             (case array_index ss index of
                None \<Rightarrow> s
              | Some k \<Rightarrow>
                  (let targetSlide = ss ! k;
                       s1 = s\<lparr>isScrolling := True\<rparr>;
                       s2 = updateActiveThumbnail (int k) s1;
                       s3 = updateSlideVisibility (int k) s2;
                       s4 = scrollToSlide v k targetSlide opts s3;
                       (ident, s5) = setTimeout (if behavior opts = Some Instant then 0 else 300) s4;
                       s6 = s5\<lparr>scrollTimeout := Some ident\<rparr>
                   in loadSlideContent k s6))))"

definition slideCount :: "component \<Rightarrow> nat" where
  "slideCount s = (case slides s of None \<Rightarrow> 0 | Some ss \<Rightarrow> length ss)"

section \<open>Reactive tracking of the active slide\<close>

text \<open>
  The debounced body of \<open>handleScroll\<close> is an async function with one \<open>await\<close>. It runs
  in two turns of the event loop. \<open>handleScroll\<close> is the first turn, up to the
  \<open>await\<close>: the guards, then the observer is set up and the turn ends.
  \<open>observerCallback\<close> is the second turn: the browser delivers the entries (target
  position and intersection ratio), the promise resolves, and the rest of the body
  runs. Other handlers can run between the two turns. The \<open>debounce\<close> utility starts
  the body \<open>debounceDelay\<close> milliseconds after the last scroll event.
\<close>

definition handleScroll :: "component \<Rightarrow> component" where
  "handleScroll s =
     (if isScrolling s then s
      else (case slides s of
              None \<Rightarrow> s
            | Some ss \<Rightarrow> if length ss = 0 then s else s\<lparr>observers := observers s + 1\<rparr>))"

definition mostVisible :: "(nat \<times> rat) list \<Rightarrow> (nat \<times> rat) option" where
  "mostVisible entries =
     (case entries of
        [] \<Rightarrow> None
      | e # es \<Rightarrow> Some (foldl (\<lambda>prev current. if snd current > snd prev then current else prev) e es))"

definition indexOf :: "'a list \<Rightarrow> nat \<Rightarrow> int" where
  "indexOf xs target = (if target < length xs then int target else - 1)"

definition observerCallback :: "(nat \<times> rat) list \<Rightarrow> component \<Rightarrow> component" where
  "observerCallback entries s =
     (if observers s = 0 then s
      else (case mostVisible entries of
              None \<Rightarrow> s
            | Some m \<Rightarrow>
                (case slides s of
                   None \<Rightarrow> s\<lparr>observers := observers s - 1\<rparr>
                 | Some ss \<Rightarrow>
                     (let s1 = s\<lparr>observers := observers s - 1\<rparr>;
                          activeIndex = indexOf ss (fst m);
                          s2 = updateActiveThumbnail activeIndex s1
                      in updateSlideVisibility activeIndex s2))))"

section \<open>Wheel snapping and stepping (second variant)\<close>

text \<open>
  The loop of \<open>#getCurrentSlideIndex\<close>, over the values of \<open>getBoundingClientRect()\<close>
  (finite doubles, held as the rationals they are): \<open>closestDistance\<close> starts at
  \<open>Infinity\<close>, and a slide is taken when its computed distance is strictly below it.
\<close>

fun closestLoop :: "rounding \<Rightarrow> jsnum \<Rightarrow> slide list \<Rightarrow> nat \<Rightarrow> nat \<times> jsnum \<Rightarrow> nat \<times> jsnum" where
  "closestLoop rnd containerCenter [] index acc = acc"
| "closestLoop rnd containerCenter (sl # rest) index (closestIndex, closestDistance) =
     (let slideCenter = js_add rnd (Num (rect_top sl)) (js_half rnd (Num (rect_height sl)));
          distance = js_abs (js_sub rnd slideCenter containerCenter)
      in closestLoop rnd containerCenter rest (Suc index)
           (if js_lt distance closestDistance then (index, distance)
            else (closestIndex, closestDistance)))"

definition getCurrentSlideIndex :: "rounding \<Rightarrow> component \<Rightarrow> nat" where
  "getCurrentSlideIndex rnd s =
     (case slides s of
        None \<Rightarrow> 0
      | Some ss \<Rightarrow>
          (if length ss = 0 then 0
           else (let containerCenter =
                       js_add rnd (Num (container_top s)) (js_half rnd (Num (container_height s)))
                 in fst (closestLoop rnd containerCenter ss 0 (0, PosInf)))))"

definition currentIndex :: "rounding \<Rightarrow> component \<Rightarrow> nat" where
  "currentIndex rnd s = getCurrentSlideIndex rnd s"

record wheel_event =
  deltaY :: jsnum
  defaultPrevented :: bool

text \<open>
  \<open>handleWheel\<close>; the result of \<open>prefersReducedMotion()\<close> is the second argument.
  \<open>Math.max(0, Math.min(slides.length - 1, currentIndex + direction))\<close> is computed on
  integers, which doubles hold exactly at this size.
\<close>

definition handleWheel ::
  "rounding \<Rightarrow> bool \<Rightarrow> wheel_event \<Rightarrow> component \<Rightarrow> wheel_event \<times> component" where
  "handleWheel rnd reducedMotion event s =
     (if reducedMotion then (event, s)
      else
        (let event' = event\<lparr>defaultPrevented := True\<rparr>
         in if isScrolling s then (event', s)
            else (case slides s of
                    None \<Rightarrow> (event', s)
                  | Some ss \<Rightarrow>
                      (if length ss \<le> 1 then (event', s)
                       else
                         (let cur = int (getCurrentSlideIndex rnd s);
                              direction = (if js_lt (Num 0) (deltaY event) then 1 else - 1);
                              nextIndex = max 0 (min (int (length ss) - 1) (cur + direction))
                          in if nextIndex \<noteq> cur
                             then (event', selectSlide Second (Num (of_int nextIndex))
                                             \<lparr>behavior = Some Smooth\<rparr> s)
                             else (event', s))))))"

definition nextSlide :: "rounding \<Rightarrow> component \<Rightarrow> component" where
  "nextSlide rnd s =
     (let cur = currentIndex rnd s
      in if int cur < int (slideCount s) - 1
         then selectSlide Second (Num (of_nat (cur + 1))) default_options s
         else s)"

definition previousSlide :: "rounding \<Rightarrow> component \<Rightarrow> component" where
  "previousSlide rnd s =
     (let cur = currentIndex rnd s
      in if cur > 0
         then selectSlide Second (Num (of_int (int cur - 1))) default_options s
         else s)"

section \<open>Events reaching the component\<close>

text \<open>
  A click or pointerenter on a thumbnail button runs the listeners of that type that
  are attached to the button, in the order they were added. The click closure is
  \<open>() => this.selectSlide(index)\<close>, the pointer closure
  \<open>() => this.#loadSlideContent(index)\<close>; the component attaches nothing else to a
  button.
\<close>

definition invokeHandler :: "variant \<Rightarrow> handler \<Rightarrow> component \<Rightarrow> component" where
  "invokeHandler v h s =
     (case h of
        ClickClosure _ index \<Rightarrow> selectSlide v (Num (of_nat index)) default_options s
      | PointerClosure _ index \<Rightarrow> loadSlideContent index s
      | _ \<Rightarrow> s)"

definition dispatchOnButton :: "variant \<Rightarrow> string \<Rightarrow> nat \<Rightarrow> component \<Rightarrow> component" where
  "dispatchOnButton v ty b s =
     (case thumbnailButtons s of
        None \<Rightarrow> s
      | Some bs \<Rightarrow>
          (if b < length bs
           then fold (invokeHandler v) (map snd (filter (\<lambda>l. fst l = ty) (listeners (bs ! b)))) s
           else s))"

text \<open>
  Everything that can happen to the component, one event-loop turn each: insertion
  into a document (\<open>connectedCallback\<close>, with what it finds there) and removal
  (\<open>disconnectedCallback\<close>), a call of the public API, an event on a thumbnail button,
  a run of the debounced scroll body, the delivery of intersection entries, a timeout,
  a wheel event (with the reduced-motion preference at that moment), \<open>next()\<close> and
  \<open>previous()\<close>. The first variant has no wheel listener and no \<open>next\<close>/\<open>previous\<close>.
\<close>

datatype event =
    Attach dom
  | Detach
  | SelectSlide jsnum options
  | ButtonEvent string nat
  | ScrollHandler
  | ObserverEntries "(nat \<times> rat) list"
  | TimeoutFires nat
  | Wheel bool wheel_event
  | Next
  | Previous

fun step :: "rounding \<Rightarrow> variant \<Rightarrow> event \<Rightarrow> component \<Rightarrow> component" where
  "step rnd v (Attach d) s = connectedCallback v d s"
| "step rnd v Detach s = disconnectedCallback v s"
| "step rnd v (SelectSlide index opts) s = selectSlide v index opts s"
| "step rnd v (ButtonEvent ty b) s = dispatchOnButton v ty b s"
| "step rnd v ScrollHandler s = handleScroll s"
| "step rnd v (ObserverEntries entries) s = observerCallback entries s"
| "step rnd v (TimeoutFires ident) s = timeoutFires ident s"
| "step rnd First (Wheel reducedMotion ev) s = s"
| "step rnd Second (Wheel reducedMotion ev) s = snd (handleWheel rnd reducedMotion ev s)"
| "step rnd First Next s = s"
| "step rnd Second Next s = nextSlide rnd s"
| "step rnd First Previous s = s"
| "step rnd Second Previous s = previousSlide rnd s"




text \<open>
  The document as the registry holds it: what a later \<open>connectedCallback\<close> finds when
  the elements have not been replaced in the meantime.
\<close>

definition currentDocument :: "component \<Rightarrow> dom" where
  "currentDocument s =
     \<lparr>children = (case slides s of None \<Rightarrow> [] | Some ss \<Rightarrow> ss),
      thumbnails = thumbnailButtons s\<rparr>"

section \<open>Observations on the attributes\<close>

text \<open>
  The positions of the slides whose \<open>aria-hidden\<close> is \<open>"false"\<close>, and of the thumbnail
  buttons whose \<open>aria-selected\<close> is \<open>"true"\<close>.
\<close>

definition positions :: "'a \<Rightarrow> 'a list \<Rightarrow> nat list" where
  "positions a xs = filter (\<lambda>j. xs ! j = a) [0..<length xs]"

definition visibleSlides :: "component \<Rightarrow> nat list" where
  "visibleSlides s =
     (case slides s of None \<Rightarrow> [] | Some ss \<Rightarrow> positions (Some ''false'') (map aria_hidden ss))"

definition selectedThumbnails :: "component \<Rightarrow> nat list" where
  "selectedThumbnails s =
     (case thumbnailButtons s of
        None \<Rightarrow> []
      | Some bs \<Rightarrow> positions (Some ''true'') (map aria_selected bs))"

text \<open>
  Exactly one slide is visible, exactly one thumbnail is selected, and they are at the
  same position.
\<close>

definition ariaSynced :: "component \<Rightarrow> bool" where
  "ariaSynced s = (length (visibleSlides s) = 1 \<and> selectedThumbnails s = visibleSlides s)"


definition ariaView :: "component \<Rightarrow> string option list option \<times> string option list option" where
  "ariaView s =
     (map_option (map aria_hidden) (slides s), map_option (map aria_selected) (thumbnailButtons s))"




text \<open>
  The distance \<open>#getCurrentSlideIndex\<close> computes for a slide, and what it means for a
  position to be the slide closest to the centre of the container by these computed
  distances: no slide has a smaller one, and every earlier slide has a larger one (or
  one that is not a number).
\<close>

definition centerOffset :: "rounding \<Rightarrow> jsnum \<Rightarrow> slide \<Rightarrow> jsnum" where
  "centerOffset rnd c sl =
     js_abs (js_sub rnd (js_add rnd (Num (rect_top sl)) (js_half rnd (Num (rect_height sl)))) c)"

definition centerDistance :: "rounding \<Rightarrow> component \<Rightarrow> slide \<Rightarrow> jsnum" where
  "centerDistance rnd s sl =
     centerOffset rnd
       (js_add rnd (Num (container_top s)) (js_half rnd (Num (container_height s)))) sl"

definition closestToCenter :: "rounding \<Rightarrow> component \<Rightarrow> slide list \<Rightarrow> nat \<Rightarrow> bool" where
  "closestToCenter rnd s ss i =
     (i < length ss \<and>
      (\<forall>j < length ss. \<not> js_lt (centerDistance rnd s (ss ! j)) (centerDistance rnd s (ss ! i))) \<and>
      (\<forall>j < i. js_lt (centerDistance rnd s (ss ! i)) (centerDistance rnd s (ss ! j)) \<or>
                centerDistance rnd s (ss ! j) = NaN))"

text \<open>
  The invariant of the loop of \<open>#getCurrentSlideIndex\<close> over the slides visited so
  far: no visited slide is below the recorded distance; and either nothing has been
  taken yet, or the recorded position is a visited slide, the recorded distance is its
  distance, and every slide before it is above that distance or has none.
\<close>

definition closestSoFar :: "rounding \<Rightarrow> jsnum \<Rightarrow> slide list \<Rightarrow> nat \<times> jsnum \<Rightarrow> bool" where
  "closestSoFar rnd c visited acc =
     ((\<forall>j < length visited. \<not> js_lt (centerOffset rnd c (visited ! j)) (snd acc)) \<and>
      (fst acc = 0 \<and> snd acc = PosInf \<or>
       fst acc < length visited \<and> snd acc = centerOffset rnd c (visited ! fst acc) \<and>
       (\<forall>j < fst acc. js_lt (snd acc) (centerOffset rnd c (visited ! j)) \<or>
                      centerOffset rnd c (visited ! j) = NaN)))"

text \<open>
  What the specification says of lazy content: an element counts as carrying a marker
  when it has \<open>data-src\<close> or \<open>loading="lazy"\<close>, and as promoted when its source is the
  deferred source and it carries no marker any more.
\<close>

definition carriesMarker :: "element \<Rightarrow> bool" where
  "carriesMarker e = (data_src e \<noteq> None \<or> loading e = Some ''lazy'')"

definition promotedFrom :: "element \<Rightarrow> element \<Rightarrow> bool" where
  "promotedFrom e e' = (src e' = data_src e \<and> \<not> carriesMarker e')"

section \<open>Sample documents\<close>

definition plainSlide :: "rat \<Rightarrow> slide" where
  "plainSlide t =
     \<lparr>data_slide_index = None, aria_hidden = None, offsetHeight = 600,
      rect_top = t, rect_height = 600, descendants = []\<rparr>"

definition plainButton :: button where
  "plainButton = \<lparr>aria_selected = None, content = Markup [], listeners = []\<rparr>"

text \<open>Five slides of height 600 stacked from the top of the container, five buttons.\<close>

definition fiveSlides :: dom where
  "fiveSlides =
     \<lparr>children = [plainSlide 0, plainSlide 600, plainSlide 1200, plainSlide 1800, plainSlide 2400],
      thumbnails = Some [plainButton, plainButton, plainButton, plainButton, plainButton]\<rparr>"

definition lazyImage :: element where
  "lazyImage =
     \<lparr>tag = ''img'', data_src = None, loading = Some ''lazy'', src = Some ''a.jpg'',
      alt = None, data_thumbnail = None, innerHTML = []\<rparr>"

definition deferredImage :: element where
  "deferredImage =
     \<lparr>tag = ''img'', data_src = Some ''b.jpg'', loading = None, src = None,
      alt = None, data_thumbnail = None, innerHTML = []\<rparr>"

text \<open>One slide holding a natively lazy image and an image with a deferred source.\<close>

definition lazyDom :: dom where
  "lazyDom =
     \<lparr>children = [(plainSlide 0)\<lparr>descendants := [lazyImage, deferredImage]\<rparr>],
      thumbnails = Some [plainButton]\<rparr>"



text \<open>The component attached to that one-slide document.\<close>

definition attachedLazy :: "variant \<Rightarrow> component" where
  "attachedLazy v = connectedCallback v lazyDom newComponent"

text \<open>The component attached to the five-slide document.\<close>

definition attachedFive :: "variant \<Rightarrow> component" where
  "attachedFive v = connectedCallback v fiveSlides newComponent"

text \<open>
  A run in which a selection falls between the two turns of the scroll body: the body
  starts on the attached component and awaits its entries, \<open>selectSlide(3)\<close> is called,
  and then the entries arrive, with the first slide still the most visible one.
\<close>

definition awaitingEntries :: "variant \<Rightarrow> component" where
  "awaitingEntries v = handleScroll (attachedFive v)"

definition selectedDuringAwait :: "variant \<Rightarrow> component" where
  "selectedDuringAwait v = selectSlide v (Num 3) default_options (awaitingEntries v)"

definition afterStaleEntries :: "variant \<Rightarrow> component" where
  "afterStaleEntries v =
     observerCallback [(0, 1), (1, 0), (2, 0), (3, 0), (4, 0)] (selectedDuringAwait v)"

text \<open>Two selections in quick succession, then removal from the document.\<close>

definition twoSelections :: "variant \<Rightarrow> component" where
  "twoSelections v =
     selectSlide v (Num 2) default_options (selectSlide v (Num 1) default_options (attachedFive v))"

text \<open>
  The attached component after \<open>selectSlide(3)\<close>, removed from the document and
  inserted again.
\<close>

definition reattached :: "variant \<Rightarrow> component" where
  "reattached v =
     (let s = disconnectedCallback v (selectSlide v (Num 3) default_options (attachedFive v))
      in connectedCallback v (currentDocument s) s)"

text \<open>
  Three slides of height 600 scrolled by 300 pixels in a container at \<open>276.2\<close>: the
  centre of the container lies between the centres of the first two slides.
\<close>

definition nearTie :: component where
  "nearTie =
     (connectedCallback Second
        \<lparr>children = [plainSlide (double (- 238 / 10)), plainSlide (double (5762 / 10)),
                     plainSlide (double (11762 / 10))],
         thumbnails = Some [plainButton, plainButton, plainButton]\<rparr>
        newComponent)
     \<lparr>container_top := double (2762 / 10), container_height := 600\<rparr>"

text \<open>
  The second variant attached to the five slides, with the container's rectangle lying
  over the slide at position \<open>k\<close>.
\<close>

definition centredOn :: "nat \<Rightarrow> component" where
  "centredOn k = (attachedFive Second)\<lparr>container_top := of_nat k * 600, container_height := 600\<rparr>"

section \<open>Basic facts\<close>

lemma length_forEach_from: "length (forEach_from i f xs) = length xs"
  by (induction xs arbitrary: i) simp_all

lemma nth_forEach_from: "j < length xs \<Longrightarrow> forEach_from i f xs ! j = f (xs ! j) (i + j)"
proof (induction xs arbitrary: i j)
  case Nil
  then show ?case by simp
next
  case (Cons x xs)
  then show ?case by (cases j) simp_all
qed

lemma length_forEach [simp]: "length (forEach f xs) = length xs"
  by (simp add: forEach_def length_forEach_from)

lemma nth_forEach [simp]: "j < length xs \<Longrightarrow> forEach f xs ! j = f (xs ! j) j"
  by (simp add: forEach_def nth_forEach_from)

lemma array_index_nat [simp]:
  "array_index xs (Num (of_nat k)) = (if k < length xs then Some k else None)"
  by (simp add: array_index_def)

lemma js_bounds_nat [simp]:
  "js_lt (Num (of_nat k)) (Num 0) = False"
  "js_ge (Num (of_nat k)) (Num (of_nat n)) = (n \<le> k)"
  by (auto simp add: js_ge_def)

text \<open>With a valid integer index both guards of \<open>selectSlide\<close> pass and the body runs.\<close>

lemma selectSlide_valid:
  assumes "slides s = Some ss" and "k < length ss"
  shows "selectSlide v (Num (of_nat k)) opts s =
     loadSlideContent k
       ((scrollToSlide v k (ss ! k) opts
          (updateSlideVisibility (int k) (updateActiveThumbnail (int k) (s\<lparr>isScrolling := True\<rparr>))))
         \<lparr>timers := timers s @ [(nextTimer s, if behavior opts = Some Instant then 0 else 300)],
          nextTimer := nextTimer s + 1,
          scrollTimeout := Some (nextTimer s)\<rparr>)"
  using assms
  by (cases v) (simp_all add: selectSlide_def setTimeout_def Let_def scrollToSlide_def
      updateSlideVisibility_def updateActiveThumbnail_def split: option.splits)

text \<open>Which fields each operation leaves alone, and what it writes.\<close>

lemma loadSlideContent_fields [simp]:
  "thumbnailButtons (loadSlideContent k s) = thumbnailButtons s"
  "isScrolling (loadSlideContent k s) = isScrolling s"
  "scrollTimeout (loadSlideContent k s) = scrollTimeout s"
  "timers (loadSlideContent k s) = timers s"
  "nextTimer (loadSlideContent k s) = nextTimer s"
  "observers (loadSlideContent k s) = observers s"
  "container_top (loadSlideContent k s) = container_top s"
  "container_height (loadSlideContent k s) = container_height s"
  by (simp_all add: loadSlideContent_def split: option.splits)

lemma scrollToSlide_fields [simp]:
  "slides (scrollToSlide v k t opts s) = slides s"
  "thumbnailButtons (scrollToSlide v k t opts s) = thumbnailButtons s"
  "isScrolling (scrollToSlide v k t opts s) = isScrolling s"
  "scrollTimeout (scrollToSlide v k t opts s) = scrollTimeout s"
  "timers (scrollToSlide v k t opts s) = timers s"
  "nextTimer (scrollToSlide v k t opts s) = nextTimer s"
  "observers (scrollToSlide v k t opts s) = observers s"
  "dispatched (scrollToSlide v k t opts s) = dispatched s"
  "container_top (scrollToSlide v k t opts s) = container_top s"
  "container_height (scrollToSlide v k t opts s) = container_height s"
  by (simp_all add: scrollToSlide_def Let_def split: variant.splits)

lemma updateSlideVisibility_fields [simp]:
  "thumbnailButtons (updateSlideVisibility a s) = thumbnailButtons s"
  "isScrolling (updateSlideVisibility a s) = isScrolling s"
  "scrollTimeout (updateSlideVisibility a s) = scrollTimeout s"
  "timers (updateSlideVisibility a s) = timers s"
  "nextTimer (updateSlideVisibility a s) = nextTimer s"
  "observers (updateSlideVisibility a s) = observers s"
  "dispatched (updateSlideVisibility a s) = dispatched s"
  "container_top (updateSlideVisibility a s) = container_top s"
  "container_height (updateSlideVisibility a s) = container_height s"
  by (simp_all add: updateSlideVisibility_def split: option.splits)

lemma updateActiveThumbnail_fields [simp]:
  "slides (updateActiveThumbnail a s) = slides s"
  "isScrolling (updateActiveThumbnail a s) = isScrolling s"
  "scrollTimeout (updateActiveThumbnail a s) = scrollTimeout s"
  "timers (updateActiveThumbnail a s) = timers s"
  "nextTimer (updateActiveThumbnail a s) = nextTimer s"
  "observers (updateActiveThumbnail a s) = observers s"
  "dispatched (updateActiveThumbnail a s) = dispatched s"
  "container_top (updateActiveThumbnail a s) = container_top s"
  "container_height (updateActiveThumbnail a s) = container_height s"
  by (simp_all add: updateActiveThumbnail_def split: option.splits)

lemma slides_updateSlideVisibility:
  "slides (updateSlideVisibility a s) =
     map_option (forEach (\<lambda>sl index. sl\<lparr>aria_hidden :=
        Some (if int index \<noteq> a then ''true'' else ''false'')\<rparr>)) (slides s)"
  by (simp add: updateSlideVisibility_def split: option.splits)

lemma thumbnailButtons_updateActiveThumbnail:
  "thumbnailButtons (updateActiveThumbnail a s) =
     map_option (forEach (\<lambda>b index. b\<lparr>aria_selected :=
        Some (if int index = a then ''true'' else ''false'')\<rparr>)) (thumbnailButtons s)"
  by (simp add: updateActiveThumbnail_def split: option.splits)

lemma slides_loadSlideContent:
  "slides (loadSlideContent k s) =
     map_option (\<lambda>ss. if k < length ss
        then ss[k := (ss ! k)\<lparr>descendants := map loadElement (descendants (ss ! k))\<rparr>]
        else ss) (slides s)"
  by (simp add: loadSlideContent_def split: option.splits)

text \<open>The loop of \<open>#getCurrentSlideIndex\<close> finds the first closest slide.\<close>

lemma js_lt_irrefl: "\<not> js_lt a a"
  by (cases a) simp_all

lemma js_lt_trans: "js_lt a b \<Longrightarrow> js_lt b c \<Longrightarrow> js_lt a c"
  by (cases a; cases b; cases c) simp_all

lemma js_lt_not_NaN: "js_lt a b \<Longrightarrow> a \<noteq> NaN \<and> b \<noteq> NaN"
  by (cases a; cases b) simp_all

lemma js_lt_total: "a \<noteq> NaN \<Longrightarrow> b \<noteq> NaN \<Longrightarrow> js_lt a b \<or> a = b \<or> js_lt b a"
  by (cases a; cases b) auto

lemma not_below_infinity: "\<not> js_lt a PosInf \<Longrightarrow> a = NaN \<or> a = PosInf"
  by (cases a) simp_all

lemma closestLoop_step:
  assumes "closestSoFar rnd c visited (ci, cd)"
  shows "closestSoFar rnd c (visited @ [sl])
           (if js_lt (centerOffset rnd c sl) cd then (length visited, centerOffset rnd c sl)
            else (ci, cd))"
proof -
  let ?d = "centerOffset rnd c sl"
  from assms have low: "\<forall>j < length visited. \<not> js_lt (centerOffset rnd c (visited ! j)) cd"
    by (simp add: closestSoFar_def)
  from assms have pos: "ci = 0 \<and> cd = PosInf \<or>
      ci < length visited \<and> cd = centerOffset rnd c (visited ! ci) \<and>
      (\<forall>j < ci. js_lt cd (centerOffset rnd c (visited ! j)) \<or>
                centerOffset rnd c (visited ! j) = NaN)"
    by (simp add: closestSoFar_def)
  show ?thesis
  proof (cases "js_lt ?d cd")
    case True
    have a: "\<forall>j < length visited. \<not> js_lt (centerOffset rnd c (visited ! j)) ?d"
      using low True js_lt_trans by blast
    have b: "\<forall>j < length visited. js_lt ?d (centerOffset rnd c (visited ! j)) \<or>
               centerOffset rnd c (visited ! j) = NaN"
    proof (intro allI impI)
      fix j
      assume j: "j < length visited"
      show "js_lt ?d (centerOffset rnd c (visited ! j)) \<or> centerOffset rnd c (visited ! j) = NaN"
      proof (cases "centerOffset rnd c (visited ! j) = NaN")
        case True
        then show ?thesis by simp
      next
        case False
        from \<open>js_lt ?d cd\<close> have "cd \<noteq> NaN" using js_lt_not_NaN by blast
        from js_lt_total [OF False this] low j
        have "centerOffset rnd c (visited ! j) = cd \<or> js_lt cd (centerOffset rnd c (visited ! j))"
          by blast
        with \<open>js_lt ?d cd\<close> js_lt_trans show ?thesis by blast
      qed
    qed
    from True a b show ?thesis
      by (auto simp add: closestSoFar_def nth_append less_Suc_eq js_lt_irrefl)
  next
    case False
    with low pos show ?thesis
      by (auto simp add: closestSoFar_def nth_append less_Suc_eq)
  qed
qed

lemma closestLoop_invariant:
  "closestSoFar rnd c visited acc \<Longrightarrow>
   closestSoFar rnd c (visited @ rest) (closestLoop rnd c rest (length visited) acc)"
proof (induction rest arbitrary: visited acc)
  case Nil
  then show ?case by simp
next
  case (Cons sl rest)
  obtain ci cd where acc: "acc = (ci, cd)" by (cases acc)
  let ?acc' = "if js_lt (centerOffset rnd c sl) cd then (length visited, centerOffset rnd c sl)
               else (ci, cd)"
  from Cons.prems have step: "closestSoFar rnd c (visited @ [sl]) ?acc'"
    unfolding acc by (rule closestLoop_step)
  have "closestLoop rnd c (sl # rest) (length visited) acc
        = closestLoop rnd c rest (length (visited @ [sl])) ?acc'"
    by (simp add: acc centerOffset_def Let_def)
  moreover have "closestSoFar rnd c ((visited @ [sl]) @ rest)
        (closestLoop rnd c rest (length (visited @ [sl])) ?acc')"
    using Cons.IH [OF step] .
  ultimately show ?case by simp
qed

lemma getCurrentSlideIndex_closest:
  assumes "slides s = Some ss" and "ss \<noteq> []"
  shows "closestToCenter rnd s ss (getCurrentSlideIndex rnd s)"
proof -
  let ?c = "js_add rnd (Num (container_top s)) (js_half rnd (Num (container_height s)))"
  have "closestSoFar rnd ?c ([] @ ss)
          (closestLoop rnd ?c ss (length ([] :: slide list)) (0, PosInf))"
    by (rule closestLoop_invariant) (simp add: closestSoFar_def)
  then have inv: "closestSoFar rnd ?c ss (closestLoop rnd ?c ss 0 (0, PosInf))"
    by simp
  obtain ci cd where r: "closestLoop rnd ?c ss 0 (0, PosInf) = (ci, cd)"
    by (cases "closestLoop rnd ?c ss 0 (0, PosInf)")
  have cur: "getCurrentSlideIndex rnd s = ci"
    using assms r by (simp add: getCurrentSlideIndex_def Let_def)
  from inv r have low: "\<forall>j < length ss. \<not> js_lt (centerOffset rnd ?c (ss ! j)) cd"
    by (simp add: closestSoFar_def)
  from inv r have pos: "ci = 0 \<and> cd = PosInf \<or>
      ci < length ss \<and> cd = centerOffset rnd ?c (ss ! ci) \<and>
      (\<forall>j < ci. js_lt cd (centerOffset rnd ?c (ss ! j)) \<or> centerOffset rnd ?c (ss ! j) = NaN)"
    by (simp add: closestSoFar_def)
  from pos show ?thesis
  proof
    assume none: "ci = 0 \<and> cd = PosInf"
    from assms(2) have l: "0 < length ss" by simp
    with low none have "\<not> js_lt (centerOffset rnd ?c (ss ! 0)) PosInf" by blast
    then have z: "centerOffset rnd ?c (ss ! 0) = NaN \<or> centerOffset rnd ?c (ss ! 0) = PosInf"
      by (rule not_below_infinity)
    have "\<forall>j < length ss. \<not> js_lt (centerOffset rnd ?c (ss ! j)) (centerOffset rnd ?c (ss ! 0))"
    proof (intro allI impI)
      fix j
      assume "j < length ss"
      with low none have "\<not> js_lt (centerOffset rnd ?c (ss ! j)) PosInf" by blast
      with z js_lt_not_NaN show "\<not> js_lt (centerOffset rnd ?c (ss ! j)) (centerOffset rnd ?c (ss ! 0))"
        by metis
    qed
    with none l show ?thesis
      unfolding cur closestToCenter_def centerDistance_def by simp
  next
    assume "ci < length ss \<and> cd = centerOffset rnd ?c (ss ! ci) \<and>
      (\<forall>j < ci. js_lt cd (centerOffset rnd ?c (ss ! j)) \<or> centerOffset rnd ?c (ss ! j) = NaN)"
    with low show ?thesis
      unfolding cur closestToCenter_def centerDistance_def by blast
  qed
qed

lemma getCurrentSlideIndex_empty:
  "slideCount s = 0 \<Longrightarrow> getCurrentSlideIndex rnd s = 0"
  by (simp add: getCurrentSlideIndex_def slideCount_def split: option.splits)

text \<open>Which slides are visible and which thumbnails selected after each operation.\<close>

lemma filter_eq_index: "filter (\<lambda>j. j = i) [0..<n] = (if i < n then [i] else [])"
  by (induction n) auto

lemma positions_map_upt: "positions a (map g [0..<n]) = filter (\<lambda>j. g j = a) [0..<n]"
  unfolding positions_def by (rule filter_cong) simp_all

lemma aria_hidden_forEach:
  "map aria_hidden (forEach (\<lambda>sl index. sl\<lparr>aria_hidden := g index\<rparr>) ss)
     = map g [0..<length ss]"
  by (rule nth_equalityI) simp_all

lemma aria_selected_forEach:
  "map aria_selected (forEach (\<lambda>b index. b\<lparr>aria_selected := g index\<rparr>) bs)
     = map g [0..<length bs]"
  by (rule nth_equalityI) simp_all

lemma visibleSlides_cong: "slides s = slides t \<Longrightarrow> visibleSlides s = visibleSlides t"
  by (simp add: visibleSlides_def)

lemma selectedThumbnails_cong:
  "thumbnailButtons s = thumbnailButtons t \<Longrightarrow> selectedThumbnails s = selectedThumbnails t"
  by (simp add: selectedThumbnails_def)

lemma visibleSlides_updateSlideVisibility:
  "slides s = Some ss \<Longrightarrow>
   visibleSlides (updateSlideVisibility (int k) s) = (if k < length ss then [k] else [])"
proof -
  assume a: "slides s = Some ss"
  have "(\<lambda>j. Some (if int j \<noteq> int k then ''true'' else ''false'') = Some ''false'')
        = (\<lambda>j. j = k)"
    by (rule ext) simp
  then show ?thesis
    using a by (simp add: visibleSlides_def slides_updateSlideVisibility aria_hidden_forEach
        positions_map_upt filter_eq_index)
qed

lemma selectedThumbnails_updateActiveThumbnail:
  "thumbnailButtons s = Some bs \<Longrightarrow>
   selectedThumbnails (updateActiveThumbnail (int k) s) = (if k < length bs then [k] else [])"
proof -
  assume a: "thumbnailButtons s = Some bs"
  have "(\<lambda>j. Some (if int j = int k then ''true'' else ''false'') = Some ''true'')
        = (\<lambda>j. j = k)"
    by (rule ext) simp
  then show ?thesis
    using a by (simp add: selectedThumbnails_def thumbnailButtons_updateActiveThumbnail
        aria_selected_forEach positions_map_upt filter_eq_index)
qed

lemma visibleSlides_loadSlideContent [simp]:
  "visibleSlides (loadSlideContent k s) = visibleSlides s"
proof (cases "slides s")
  case None
  then show ?thesis by (simp add: loadSlideContent_def)
next
  case (Some ss)
  have "k < length ss \<Longrightarrow>
      map aria_hidden (ss[k := (ss ! k)\<lparr>descendants := ds\<rparr>]) = map aria_hidden ss" for ds
    by (simp add: map_update list_update_same_conv)
  with Some show ?thesis
    by (simp add: visibleSlides_def slides_loadSlideContent)
qed

lemma selectedThumbnails_loadSlideContent [simp]:
  "selectedThumbnails (loadSlideContent k s) = selectedThumbnails s"
  by (simp add: selectedThumbnails_def)

lemma visibleSlides_selectSlide:
  assumes "slides s = Some ss" and "k < length ss"
  shows "visibleSlides (selectSlide v (Num (of_nat k)) opts s) = [k]"
proof -
  let ?u = "updateSlideVisibility (int k) (updateActiveThumbnail (int k) (s\<lparr>isScrolling := True\<rparr>))"
  have "visibleSlides (selectSlide v (Num (of_nat k)) opts s) = visibleSlides ?u"
    by (simp add: selectSlide_valid [OF assms]) (simp add: visibleSlides_def)
  also have "\<dots> = [k]"
    using assms by (simp add: visibleSlides_updateSlideVisibility)
  finally show ?thesis .
qed

lemma selectedThumbnails_selectSlide:
  assumes "slides s = Some ss" and "k < length ss" and "thumbnailButtons s = Some bs"
  shows "selectedThumbnails (selectSlide v (Num (of_nat k)) opts s)
           = (if k < length bs then [k] else [])"
proof -
  let ?u = "updateActiveThumbnail (int k) (s\<lparr>isScrolling := True\<rparr>)"
  have "selectedThumbnails (selectSlide v (Num (of_nat k)) opts s) = selectedThumbnails ?u"
    by (simp add: selectSlide_valid [OF assms(1,2)]) (simp add: selectedThumbnails_def)
  also have "\<dots> = (if k < length bs then [k] else [])"
    using assms by (simp add: selectedThumbnails_updateActiveThumbnail)
  finally show ?thesis .
qed

lemma isScrolling_selectSlide:
  assumes "slides s = Some ss" and "k < length ss"
  shows "isScrolling (selectSlide v (Num (of_nat k)) opts s)"
  by (simp add: selectSlide_valid [OF assms])

lemma currentIndex_less:
  assumes "slides s = Some ss" and "ss \<noteq> []"
  shows "getCurrentSlideIndex rnd s < length ss"
  using getCurrentSlideIndex_closest [OF assms] by (simp add: closestToCenter_def)

text \<open>The cases of \<open>handleWheel\<close>.\<close>

lemma handleWheel_reduced: "handleWheel rnd True ev s = (ev, s)"
  by (simp add: handleWheel_def)

lemma handleWheel_prevents: "fst (handleWheel rnd False ev s) = ev\<lparr>defaultPrevented := True\<rparr>"
  by (simp add: handleWheel_def Let_def split: option.splits)

lemma handleWheel_in_flight: "isScrolling s \<Longrightarrow> snd (handleWheel rnd False ev s) = s"
  by (simp add: handleWheel_def Let_def)

lemma handleWheel_idle:
  assumes "\<not> isScrolling s"
  shows "snd (handleWheel rnd False ev s) =
     (let cur = int (getCurrentSlideIndex rnd s);
          nextIndex = max 0 (min (int (slideCount s) - 1)
                        (cur + (if js_lt (Num 0) (deltaY ev) then 1 else - 1)))
      in if nextIndex \<noteq> cur
         then selectSlide Second (Num (of_int nextIndex)) \<lparr>behavior = Some Smooth\<rparr> s
         else s)"
proof (cases "slides s")
  case None
  then have "slideCount s = 0" "getCurrentSlideIndex rnd s = 0"
    by (simp_all add: slideCount_def getCurrentSlideIndex_def)
  with None assms show ?thesis
    by (simp add: handleWheel_def Let_def)
next
  case (Some ss)
  then have n: "slideCount s = length ss" by (simp add: slideCount_def)
  show ?thesis
  proof (cases "length ss \<le> 1")
    case True
    have "getCurrentSlideIndex rnd s = 0"
    proof (cases "ss = []")
      case True
      with Some show ?thesis by (simp add: getCurrentSlideIndex_def)
    next
      case False
      from currentIndex_less [OF Some False, of rnd] \<open>length ss \<le> 1\<close> show ?thesis by simp
    qed
    with True Some assms n show ?thesis
      by (simp add: handleWheel_def Let_def)
  next
    case False
    with Some assms n show ?thesis
      by (simp add: handleWheel_def Let_def)
  qed
qed

lemma clamp_bounds:
  "0 < n \<Longrightarrow> 0 \<le> max 0 (min (n - 1) x) \<and> max 0 (min (n - 1) x) < (n::int)"
  by linarith

lemma handleWheel_invokes:
  assumes "\<not> isScrolling s"
  shows "isScrolling (snd (handleWheel rnd False ev s)) \<longleftrightarrow>
     max 0 (min (int (slideCount s) - 1)
        (int (getCurrentSlideIndex rnd s) + (if js_lt (Num 0) (deltaY ev) then 1 else - 1)))
     \<noteq> int (getCurrentSlideIndex rnd s)"
proof -
  let ?cur = "int (getCurrentSlideIndex rnd s)"
  let ?next = "max 0 (min (int (slideCount s) - 1)
        (?cur + (if js_lt (Num 0) (deltaY ev) then 1 else - 1)))"
  show ?thesis
  proof (cases "?next = ?cur")
    case True
    with assms show ?thesis
      by (simp only: handleWheel_idle [OF assms] Let_def) simp
  next
    case False
    have pos: "0 < slideCount s"
    proof (rule ccontr)
      assume "\<not> 0 < slideCount s"
      then have "slideCount s = 0" by simp
      then have "?next = ?cur"
        by (simp add: getCurrentSlideIndex_empty)
      with False show False by simp
    qed
    then obtain ss where ss: "slides s = Some ss" "slideCount s = length ss"
      by (auto simp add: slideCount_def split: option.splits)
    from pos have "0 < int (slideCount s)" by simp
    from clamp_bounds [OF this] have b: "0 \<le> ?next" "?next < int (length ss)"
      unfolding ss(2) by blast+
    from b(1) have e: "(of_int ?next :: rat) = of_nat (nat ?next)"
      by simp
    from b have l: "nat ?next < length ss"
      by linarith
    have "snd (handleWheel rnd False ev s)
        = selectSlide Second (Num (of_nat (nat ?next))) \<lparr>behavior = Some Smooth\<rparr> s"
      using False by (simp only: handleWheel_idle [OF assms] Let_def e if_True simp_thms)
    with isScrolling_selectSlide [OF ss(1) l, of Second "\<lparr>behavior = Some Smooth\<rparr>"] False
    show ?thesis by simp
  qed
qed

section \<open>Out-of-range and fractional indices\<close>

text \<open>
  C3. \<open>selectSlide\<close> with an index below 0, or at or above the slide count, or with
  the slide list absent, returns the state it was given: no attribute, flag, scroll
  request, timeout, element source or dispatched event differs.
\<close>

theorem selectSlide_out_of_range_unchanged:
  "slides s = None \<or> js_lt index (Num 0) \<or> js_ge index (Num (of_nat (slideCount s)))
   \<Longrightarrow> selectSlide v index opts s = s"
  by (auto simp add: selectSlide_def slideCount_def split: option.splits)

theorem selectSlide_out_of_range_unchanged_witness:
  "js_ge (Num 7) (Num (of_nat (slideCount (attachedFive Second)))) \<and>
   selectSlide Second (Num 7) default_options (attachedFive Second) = attachedFive Second"
proof -
  have h: "js_ge (Num 7) (Num (of_nat (slideCount (attachedFive Second))))"
    by code_simp
  show ?thesis
    using h selectSlide_out_of_range_unchanged
      [of "attachedFive Second" "Num 7" Second default_options]
    by simp
qed

text \<open>
  C10. For a number strictly between 0 and the slide count that is not an integer, the
  bounds check of \<open>selectSlide\<close> passes, the lookup \<open>slides[index]\<close> finds nothing, and
  the call returns the state unchanged.
\<close>

theorem selectSlide_fractional_unchanged:
  assumes "0 < q" and "q < of_nat (slideCount s)" and "q \<notin> \<int>"
  shows "\<not> js_lt (Num q) (Num 0) \<and> \<not> js_ge (Num q) (Num (of_nat (slideCount s))) \<and>
         (\<forall>ss. slides s = Some ss \<longrightarrow> array_index ss (Num q) = None) \<and>
         selectSlide v (Num q) opts s = s"
proof -
  have "of_int \<lfloor>q\<rfloor> \<noteq> q"
    using assms(3) by (metis Ints_of_int)
  then have "array_index ss (Num q) = None" for ss :: "slide list"
    by (simp add: array_index_def)
  then show ?thesis
    using assms(1,2) by (simp add: selectSlide_def js_ge_def split: option.splits)
qed

theorem selectSlide_fractional_unchanged_witness:
  "(0::rat) < 3 / 2 \<and> (3 / 2 :: rat) < of_nat (slideCount (attachedFive First)) \<and>
   (3 / 2 :: rat) \<notin> \<int> \<and>
   selectSlide First (Num (3 / 2)) default_options (attachedFive First) = attachedFive First"
proof -
  have fl: "\<lfloor>3 / 2 :: rat\<rfloor> = 1"
    using floor_divide_of_int_eq [of 3 2, where ?'a = rat] by simp
  have a: "(0::rat) < 3 / 2" by simp
  have b: "(3 / 2 :: rat) < of_nat (slideCount (attachedFive First))"
    by code_simp
  have c: "(3 / 2 :: rat) \<notin> \<int>"
  proof
    assume "(3 / 2 :: rat) \<in> \<int>"
    then have "of_int \<lfloor>3 / 2 :: rat\<rfloor> = (3 / 2 :: rat)"
      by (metis Ints_cases floor_of_int)
    then show False by (simp add: fl)
  qed
  show ?thesis
    using a b c selectSlide_fractional_unchanged [OF a b c, of First default_options] by simp
qed

section \<open>What a valid selection does\<close>

text \<open>
  C1. For every index \<open>i\<close> with \<open>0 \<le> i < slideCount\<close>, after \<open>selectSlide(i)\<close> slide
  \<open>i\<close> has \<open>aria-hidden="false"\<close> and every other slide \<open>aria-hidden="true"\<close>, and
  among the thumbnail buttons of the registry button \<open>i\<close> has \<open>aria-selected="true"\<close>
  and every other button \<open>aria-selected="false"\<close>. This holds in both variants and for
  every scroll behaviour.
\<close>

theorem selectSlide_sets_aria:
  assumes "slides s = Some ss" and "i < length ss"
  shows "\<exists>ss'. slides (selectSlide v (Num (of_nat i)) opts s) = Some ss' \<and>
           length ss' = length ss \<and>
           (\<forall>j < length ss. aria_hidden (ss' ! j) = Some (if j = i then ''false'' else ''true'')) \<and>
           (\<forall>bs. thumbnailButtons s = Some bs \<longrightarrow>
              (\<exists>bs'. thumbnailButtons (selectSlide v (Num (of_nat i)) opts s) = Some bs' \<and>
                 length bs' = length bs \<and>
                 (\<forall>j < length bs.
                    aria_selected (bs' ! j) = Some (if j = i then ''true'' else ''false''))))"
  using assms
  by (auto simp add: selectSlide_valid slides_loadSlideContent slides_updateSlideVisibility
      thumbnailButtons_updateActiveThumbnail nth_list_update)

theorem selectSlide_sets_aria_witness:
  "slides (attachedFive First) \<noteq> None \<and>
   thumbnailButtons (attachedFive First) \<noteq> None \<and>
   (2::nat) < length (the (slides (attachedFive First))) \<and>
   (2::nat) < length (the (thumbnailButtons (attachedFive First))) \<and>
   aria_hidden (the (slides (selectSlide First (Num 2) default_options (attachedFive First))) ! 2)
     = Some ''false'' \<and>
   aria_hidden (the (slides (selectSlide First (Num 2) default_options (attachedFive First))) ! 0)
     = Some ''true'' \<and>
   aria_selected
     (the (thumbnailButtons (selectSlide First (Num 2) default_options (attachedFive First))) ! 2)
     = Some ''true'' \<and>
   aria_selected
     (the (thumbnailButtons (selectSlide First (Num 2) default_options (attachedFive First))) ! 0)
     = Some ''false''"
proof -
  have a: "slides (attachedFive First) \<noteq> None" by code_simp
  have b: "thumbnailButtons (attachedFive First) \<noteq> None" by code_simp
  have c: "(2::nat) < length (the (slides (attachedFive First)))" by code_simp
  have d: "(2::nat) < length (the (thumbnailButtons (attachedFive First)))" by code_simp
  from a have a': "slides (attachedFive First) = Some (the (slides (attachedFive First)))"
    by simp
  from b have b': "thumbnailButtons (attachedFive First)
      = Some (the (thumbnailButtons (attachedFive First)))"
    by simp
  let ?s' = "selectSlide First (Num 2) default_options (attachedFive First)"
  from selectSlide_sets_aria [OF a' c, of First default_options] b'
  obtain ss' bs' where
    s: "slides ?s' = Some ss'" and
    hs: "\<forall>j < length (the (slides (attachedFive First))).
           aria_hidden (ss' ! j) = Some (if j = 2 then ''false'' else ''true'')" and
    t: "thumbnailButtons ?s' = Some bs'" and
    ht: "\<forall>j < length (the (thumbnailButtons (attachedFive First))).
           aria_selected (bs' ! j) = Some (if j = 2 then ''true'' else ''false'')"
    by auto
  from c have c0: "(0::nat) < length (the (slides (attachedFive First)))" by linarith
  from d have d0: "(0::nat) < length (the (thumbnailButtons (attachedFive First)))" by linarith
  from hs c have "aria_hidden (ss' ! 2) = Some ''false''" by simp
  moreover from hs c0 have "aria_hidden (ss' ! 0) = Some ''true''" by simp
  moreover from ht d have "aria_selected (bs' ! 2) = Some ''true''" by simp
  moreover from ht d0 have "aria_selected (bs' ! 0) = Some ''false''" by simp
  ultimately show ?thesis
    using a b c d s t by simp
qed

text \<open>
  C9. A call of \<open>selectSlide\<close> with a valid index sets \<open>#isScrolling\<close>, schedules one
  timeout whose delay is 0 ms when \<open>options.behavior\<close> is \<open>'instant'\<close> and 300 ms
  otherwise, keeps its id in \<open>#scrollTimeout\<close>, and that timeout clears the flag when
  it fires. The witness is the scenario of the specification:
  \<open>selectSlide(3, {behavior: 'instant'})\<close> on five slides.
\<close>

theorem selectSlide_sets_flag_and_timeout:
  assumes "slides s = Some ss" and "i < length ss"
  shows "isScrolling (selectSlide v (Num (of_nat i)) opts s) \<and>
         timers (selectSlide v (Num (of_nat i)) opts s) =
           timers s @ [(nextTimer s, if behavior opts = Some Instant then 0 else 300)] \<and>
         scrollTimeout (selectSlide v (Num (of_nat i)) opts s) = Some (nextTimer s) \<and>
         \<not> isScrolling (timeoutFires (nextTimer s) (selectSlide v (Num (of_nat i)) opts s))"
proof -
  let ?s' = "selectSlide v (Num (of_nat i)) opts s"
  have f: "isScrolling ?s'"
    and t: "timers ?s' = timers s @ [(nextTimer s, if behavior opts = Some Instant then 0 else 300)]"
    and st: "scrollTimeout ?s' = Some (nextTimer s)"
    by (simp_all add: selectSlide_valid [OF assms])
  have "nextTimer s \<in> fst ` set (timers ?s')"
    by (simp add: t)
  then have "\<not> isScrolling (timeoutFires (nextTimer s) ?s')"
    by (simp add: timeoutFires_def)
  with f t st show ?thesis by simp
qed

theorem selectSlide_sets_flag_and_timeout_witness:
  "slides (attachedFive Second) \<noteq> None \<and>
   (3::nat) < length (the (slides (attachedFive Second))) \<and>
   visibleSlides (selectSlide Second (Num 3) \<lparr>behavior = Some Instant\<rparr> (attachedFive Second)) = [3] \<and>
   selectedThumbnails (selectSlide Second (Num 3) \<lparr>behavior = Some Instant\<rparr> (attachedFive Second)) = [3] \<and>
   isScrolling (selectSlide Second (Num 3) \<lparr>behavior = Some Instant\<rparr> (attachedFive Second)) \<and>
   timers (selectSlide Second (Num 3) \<lparr>behavior = Some Instant\<rparr> (attachedFive Second)) = [(1, 0)] \<and>
   \<not> isScrolling (timeoutFires 1
        (selectSlide Second (Num 3) \<lparr>behavior = Some Instant\<rparr> (attachedFive Second)))"
proof -
  have a: "slides (attachedFive Second) \<noteq> None" by code_simp
  have c: "(3::nat) < length (the (slides (attachedFive Second)))" by code_simp
  from a have a': "slides (attachedFive Second) = Some (the (slides (attachedFive Second)))"
    by simp
  have t0: "timers (attachedFive Second) = []" by code_simp
  have n0: "nextTimer (attachedFive Second) = 1" by code_simp
  have v: "visibleSlides (selectSlide Second (Num 3) \<lparr>behavior = Some Instant\<rparr>
             (attachedFive Second)) = [3]"
    by code_simp
  have th: "selectedThumbnails (selectSlide Second (Num 3) \<lparr>behavior = Some Instant\<rparr>
             (attachedFive Second)) = [3]"
    by code_simp
  from selectSlide_sets_flag_and_timeout [OF a' c, of Second "\<lparr>behavior = Some Instant\<rparr>"]
  show ?thesis
    using a c v th by (simp add: t0 n0)
qed

section \<open>Stepping with \<open>next()\<close> and \<open>previous()\<close>\<close>

text \<open>
  C7. In the second variant \<open>next()\<close> does nothing when the current index is the last
  slide and otherwise selects the current index plus one; \<open>previous()\<close> does nothing
  when the current index is 0 and otherwise selects the current index minus one. The
  selected index is a valid one, so the slide that becomes visible is exactly one step
  away. With no slides both do nothing.
\<close>

theorem next_previous_step:
  "(slideCount s = 0 \<longrightarrow> nextSlide rnd s = s \<and> previousSlide rnd s = s) \<and>
   (0 < slideCount s \<longrightarrow>
      currentIndex rnd s < slideCount s \<and>
      (currentIndex rnd s = slideCount s - 1 \<longrightarrow> nextSlide rnd s = s) \<and>
      (currentIndex rnd s \<noteq> slideCount s - 1 \<longrightarrow>
         nextSlide rnd s = selectSlide Second (Num (of_nat (currentIndex rnd s + 1))) default_options s \<and>
         visibleSlides (nextSlide rnd s) = [currentIndex rnd s + 1]) \<and>
      (currentIndex rnd s = 0 \<longrightarrow> previousSlide rnd s = s) \<and>
      (currentIndex rnd s \<noteq> 0 \<longrightarrow>
         previousSlide rnd s = selectSlide Second (Num (of_nat (currentIndex rnd s - 1))) default_options s \<and>
         visibleSlides (previousSlide rnd s) = [currentIndex rnd s - 1]))"
proof (cases "slideCount s = 0")
  case True
  then have "currentIndex rnd s = 0"
    by (simp add: currentIndex_def getCurrentSlideIndex_empty)
  with True show ?thesis
    by (simp add: nextSlide_def previousSlide_def)
next
  case False
  then obtain ss where ss: "slides s = Some ss" "ss \<noteq> []" "slideCount s = length ss"
    by (auto simp add: slideCount_def split: option.splits)
  let ?cur = "currentIndex rnd s"
  have cur: "?cur < length ss"
    using currentIndex_less [OF ss(1,2), of rnd] by (simp add: currentIndex_def)
  have n1: "?cur = length ss - 1 \<Longrightarrow> nextSlide rnd s = s"
    using cur by (simp add: nextSlide_def ss(3))
  have n2: "nextSlide rnd s = selectSlide Second (Num (of_nat (?cur + 1))) default_options s"
    if "?cur \<noteq> length ss - 1"
  proof -
    from cur that have "int ?cur < int (slideCount s) - 1"
      unfolding ss(3) by linarith
    then show ?thesis
      by (simp only: nextSlide_def Let_def if_True)
  qed
  have n3: "visibleSlides (nextSlide rnd s) = [?cur + 1]" if "?cur \<noteq> length ss - 1"
  proof -
    from cur that have "?cur + 1 < length ss" by linarith
    from visibleSlides_selectSlide [OF ss(1) this, of Second default_options]
    show ?thesis by (simp only: n2 [OF that])
  qed
  have p1: "?cur = 0 \<Longrightarrow> previousSlide rnd s = s"
    by (simp add: previousSlide_def)
  have conv: "(of_int (int ?cur - 1) :: rat) = of_nat (?cur - 1)" if "?cur \<noteq> 0"
    using that by (simp add: of_nat_diff)
  have p2: "previousSlide rnd s = selectSlide Second (Num (of_nat (?cur - 1))) default_options s"
    if "?cur \<noteq> 0"
  proof -
    from that have "?cur > 0" by simp
    then have "previousSlide rnd s
        = selectSlide Second (Num (of_int (int ?cur - 1))) default_options s"
      by (simp only: previousSlide_def Let_def if_True)
    then show ?thesis
      by (simp only: conv [OF that])
  qed
  have p3: "visibleSlides (previousSlide rnd s) = [?cur - 1]" if "?cur \<noteq> 0"
  proof -
    from cur have "?cur - 1 < length ss" by linarith
    from visibleSlides_selectSlide [OF ss(1) this, of Second default_options]
    show ?thesis by (simp only: p2 [OF that])
  qed
  from False have pos: "0 < slideCount s" by simp
  from cur n1 n2 n3 p1 p2 p3 pos show ?thesis
    unfolding ss(3) by blast
qed

theorem next_previous_step_witness:
  "slideCount newComponent = 0 \<and>
   nextSlide toDouble newComponent = newComponent \<and> previousSlide toDouble newComponent = newComponent \<and>
   0 < slideCount (centredOn 2) \<and> currentIndex toDouble (centredOn 2) = 2 \<and>
   visibleSlides (nextSlide toDouble (centredOn 2)) = [3] \<and>
   visibleSlides (previousSlide toDouble (centredOn 2)) = [1] \<and>
   0 < slideCount (centredOn 0) \<and> currentIndex toDouble (centredOn 0) = 0 \<and>
   previousSlide toDouble (centredOn 0) = centredOn 0 \<and>
   0 < slideCount (centredOn 4) \<and> currentIndex toDouble (centredOn 4) = slideCount (centredOn 4) - 1 \<and>
   nextSlide toDouble (centredOn 4) = centredOn 4"
proof -
  have e: "slideCount newComponent = 0" by code_simp
  have c2: "slideCount (centredOn 2) = 5" and i2: "currentIndex toDouble (centredOn 2) = 2"
    by code_simp+
  have c0: "slideCount (centredOn 0) = 5" and i0: "currentIndex toDouble (centredOn 0) = 0"
    by code_simp+
  have c4: "slideCount (centredOn 4) = 5" and i4: "currentIndex toDouble (centredOn 4) = 4"
    by code_simp+
  from next_previous_step [where s = newComponent and rnd = toDouble] e
  have a: "nextSlide toDouble newComponent = newComponent \<and> previousSlide toDouble newComponent = newComponent"
    by blast
  from next_previous_step [where s = "centredOn 2" and rnd = toDouble]
  have b: "visibleSlides (nextSlide toDouble (centredOn 2)) = [3] \<and>
           visibleSlides (previousSlide toDouble (centredOn 2)) = [1]"
    by (auto simp add: c2 i2)
  from next_previous_step [where s = "centredOn 0" and rnd = toDouble]
  have c: "previousSlide toDouble (centredOn 0) = centredOn 0"
    by (simp add: c0 i0)
  from next_previous_step [where s = "centredOn 4" and rnd = toDouble]
  have d: "nextSlide toDouble (centredOn 4) = centredOn 4"
    by (simp add: c4 i4)
  from a b c d e show ?thesis
    by (simp add: c2 i2 c0 i0 c4 i4)
qed

section \<open>Wheel snapping\<close>

text \<open>
  The distances compared are the computed ones. On the three-slide sample the first
  slide is the closer one in exact arithmetic, by less than the rounding error; the
  computed distance of the second is the smaller, and that slide is the current one.
\<close>

lemma rounding_decides_near_tie:
  "centerDistance toDouble nearTie (the (slides nearTie) ! 0)
     = Num (5277655813324801 / 17592186044416) \<and>
   centerDistance toDouble nearTie (the (slides nearTie) ! 1) = Num 300 \<and>
   getCurrentSlideIndex toDouble nearTie = 1 \<and>
   getCurrentSlideIndex Num nearTie = 0"
  by code_simp

text \<open>
  C5. For every wheel event in the second variant: with reduced motion preferred the
  handler does nothing (the default is not prevented, the state is unchanged);
  otherwise the default is prevented and, when no programmatic scroll is in flight, the
  current index is the slide whose vertical centre is closest to the centre of the
  container by the distances the handler computes in double arithmetic (the first such
  slide), the next index is the current index plus 1 when \<open>deltaY\<close> is positive
  and minus 1 otherwise, clamped to \<open>[0, slideCount - 1]\<close>, and \<open>selectSlide\<close> is
  invoked with it exactly when it differs from the current index. While a programmatic
  scroll is in flight the handler only prevents the default.
\<close>

theorem handleWheel_snaps:
  "handleWheel rnd True ev s = (ev, s) \<and>
   fst (handleWheel rnd False ev s) = ev\<lparr>defaultPrevented := True\<rparr> \<and>
   (isScrolling s \<longrightarrow> snd (handleWheel rnd False ev s) = s) \<and>
   (\<forall>ss. slides s = Some ss \<and> ss \<noteq> [] \<longrightarrow> closestToCenter rnd s ss (getCurrentSlideIndex rnd s)) \<and>
   (\<not> isScrolling s \<longrightarrow>
      (let cur = int (getCurrentSlideIndex rnd s);
           nextIndex = max 0 (min (int (slideCount s) - 1)
                         (cur + (if js_lt (Num 0) (deltaY ev) then 1 else - 1)))
       in snd (handleWheel rnd False ev s) =
            (if nextIndex \<noteq> cur
             then selectSlide Second (Num (of_int nextIndex)) \<lparr>behavior = Some Smooth\<rparr> s
             else s) \<and>
          (isScrolling (snd (handleWheel rnd False ev s)) \<longleftrightarrow> nextIndex \<noteq> cur)))"
proof -
  have c: "\<forall>ss. slides s = Some ss \<and> ss \<noteq> [] \<longrightarrow> closestToCenter rnd s ss (getCurrentSlideIndex rnd s)"
    using getCurrentSlideIndex_closest by blast
  have i: "\<not> isScrolling s \<longrightarrow>
      (let cur = int (getCurrentSlideIndex rnd s);
           nextIndex = max 0 (min (int (slideCount s) - 1)
                         (cur + (if js_lt (Num 0) (deltaY ev) then 1 else - 1)))
       in snd (handleWheel rnd False ev s) =
            (if nextIndex \<noteq> cur
             then selectSlide Second (Num (of_int nextIndex)) \<lparr>behavior = Some Smooth\<rparr> s
             else s) \<and>
          (isScrolling (snd (handleWheel rnd False ev s)) \<longleftrightarrow> nextIndex \<noteq> cur))"
  proof
    assume a: "\<not> isScrolling s"
    from handleWheel_idle [OF a, of rnd ev] handleWheel_invokes [OF a, of rnd ev]
    show "let cur = int (getCurrentSlideIndex rnd s);
           nextIndex = max 0 (min (int (slideCount s) - 1)
                         (cur + (if js_lt (Num 0) (deltaY ev) then 1 else - 1)))
       in snd (handleWheel rnd False ev s) =
            (if nextIndex \<noteq> cur
             then selectSlide Second (Num (of_int nextIndex)) \<lparr>behavior = Some Smooth\<rparr> s
             else s) \<and>
          (isScrolling (snd (handleWheel rnd False ev s)) \<longleftrightarrow> nextIndex \<noteq> cur)"
      unfolding Let_def by blast
  qed
  from handleWheel_reduced handleWheel_prevents handleWheel_in_flight c i
  show ?thesis by blast
qed

theorem handleWheel_snaps_witness:
  "handleWheel toDouble True \<lparr>deltaY = Num 100, defaultPrevented = False\<rparr> (centredOn 2)
     = (\<lparr>deltaY = Num 100, defaultPrevented = False\<rparr>, centredOn 2) \<and>
   defaultPrevented (fst (handleWheel toDouble False \<lparr>deltaY = Num 100, defaultPrevented = False\<rparr> (centredOn 2))) \<and>
   \<not> isScrolling (centredOn 2) \<and>
   slides (centredOn 2) \<noteq> None \<and> the (slides (centredOn 2)) \<noteq> [] \<and>
   closestToCenter toDouble (centredOn 2) (the (slides (centredOn 2))) 2 \<and>
   snd (handleWheel toDouble False \<lparr>deltaY = Num 100, defaultPrevented = False\<rparr> (centredOn 2))
     = selectSlide Second (Num 3) \<lparr>behavior = Some Smooth\<rparr> (centredOn 2) \<and>
   isScrolling (snd (handleWheel toDouble False \<lparr>deltaY = Num 100, defaultPrevented = False\<rparr> (centredOn 2))) \<and>
   isScrolling (selectSlide Second (Num 3) default_options (centredOn 2)) \<and>
   snd (handleWheel toDouble False \<lparr>deltaY = Num 100, defaultPrevented = False\<rparr>
          (selectSlide Second (Num 3) default_options (centredOn 2)))
     = selectSlide Second (Num 3) default_options (centredOn 2) \<and>
   \<not> isScrolling nearTie \<and> getCurrentSlideIndex toDouble nearTie = 1 \<and>
   snd (handleWheel toDouble False \<lparr>deltaY = Num 100, defaultPrevented = False\<rparr> nearTie)
     = selectSlide Second (Num 2) \<lparr>behavior = Some Smooth\<rparr> nearTie"
proof -
  let ?ev = "\<lparr>deltaY = Num 100, defaultPrevented = False\<rparr>"
  let ?busy = "selectSlide Second (Num 3) default_options (centredOn 2)"
  have idle: "\<not> isScrolling (centredOn 2)" by code_simp
  have some: "slides (centredOn 2) \<noteq> None" by code_simp
  have ne: "the (slides (centredOn 2)) \<noteq> []" by code_simp
  have cur: "getCurrentSlideIndex toDouble (centredOn 2) = 2" by code_simp
  have cnt: "slideCount (centredOn 2) = 5" by code_simp
  have busy: "isScrolling ?busy" by code_simp
  from some have some': "slides (centredOn 2) = Some (the (slides (centredOn 2)))" by simp
  note w = handleWheel_snaps [of toDouble ?ev "centredOn 2"]
  from w have r: "handleWheel toDouble True ?ev (centredOn 2) = (?ev, centredOn 2)" by blast
  from w have p: "fst (handleWheel toDouble False ?ev (centredOn 2)) = ?ev\<lparr>defaultPrevented := True\<rparr>"
    by blast
  from w some' ne have cl: "closestToCenter toDouble (centredOn 2) (the (slides (centredOn 2)))
      (getCurrentSlideIndex toDouble (centredOn 2))"
    by blast
  from w idle have
    "let cur = int (getCurrentSlideIndex toDouble (centredOn 2));
         nextIndex = max 0 (min (int (slideCount (centredOn 2)) - 1)
                       (cur + (if js_lt (Num 0) (deltaY ?ev) then 1 else - 1)))
     in snd (handleWheel toDouble False ?ev (centredOn 2)) =
          (if nextIndex \<noteq> cur
           then selectSlide Second (Num (of_int nextIndex)) \<lparr>behavior = Some Smooth\<rparr> (centredOn 2)
           else centredOn 2) \<and>
        (isScrolling (snd (handleWheel toDouble False ?ev (centredOn 2))) \<longleftrightarrow> nextIndex \<noteq> cur)"
    by blast
  then have both: "snd (handleWheel toDouble False ?ev (centredOn 2))
                    = selectSlide Second (Num 3) \<lparr>behavior = Some Smooth\<rparr> (centredOn 2) \<and>
                   isScrolling (snd (handleWheel toDouble False ?ev (centredOn 2)))"
    by (auto simp add: cur cnt Let_def)
  from both have sel: "snd (handleWheel toDouble False ?ev (centredOn 2))
                    = selectSlide Second (Num 3) \<lparr>behavior = Some Smooth\<rparr> (centredOn 2)" ..
  from both have inv: "isScrolling (snd (handleWheel toDouble False ?ev (centredOn 2)))" ..
  from handleWheel_snaps [of toDouble ?ev ?busy] busy
  have fl: "snd (handleWheel toDouble False ?ev ?busy) = ?busy" by blast
  have nidle: "\<not> isScrolling nearTie" by code_simp
  have ncur: "getCurrentSlideIndex toDouble nearTie = 1" by code_simp
  have ncnt: "slideCount nearTie = 3" by code_simp
  from handleWheel_snaps [of toDouble ?ev nearTie] nidle have
    "let cur = int (getCurrentSlideIndex toDouble nearTie);
         nextIndex = max 0 (min (int (slideCount nearTie) - 1)
                       (cur + (if js_lt (Num 0) (deltaY ?ev) then 1 else - 1)))
     in snd (handleWheel toDouble False ?ev nearTie) =
          (if nextIndex \<noteq> cur
           then selectSlide Second (Num (of_int nextIndex)) \<lparr>behavior = Some Smooth\<rparr> nearTie
           else nearTie) \<and>
        (isScrolling (snd (handleWheel toDouble False ?ev nearTie)) \<longleftrightarrow> nextIndex \<noteq> cur)"
    by blast
  then have nsel: "snd (handleWheel toDouble False ?ev nearTie)
                    = selectSlide Second (Num 2) \<lparr>behavior = Some Smooth\<rparr> nearTie"
    by (auto simp add: ncur ncnt Let_def)
  from r p idle some ne cl sel inv busy fl nidle ncur nsel show ?thesis
    by (simp add: cur)
qed

section \<open>Lazy content\<close>

lemma dispatched_loadSlideContent:
  "slides s = Some ss \<Longrightarrow> k < length ss \<Longrightarrow>
   dispatched (loadSlideContent k s) = dispatched s @
     [\<lparr>event_type = ''slide-content-loaded'', detail_index = k, detail_slide = k\<rparr>]"
  by (simp add: loadSlideContent_def)

lemma loadElement_cases:
  "loadElement e =
     (case data_src e of
        None \<Rightarrow> e
      | Some u \<Rightarrow> if u \<noteq> [] then e\<lparr>src := Some u, data_src := None\<rparr> else e)"
  by (simp add: loadElement_def lazySelected_def split: option.splits)

lemma loading_loadElement [simp]: "loading (loadElement e) = loading e"
  by (simp add: loadElement_cases split: option.splits)

lemma selectSlide_loads:
  assumes "slides s = Some ss" and "k < length ss"
  shows "descendants (the (slides (selectSlide v (Num (of_nat k)) opts s)) ! k)
           = map loadElement (descendants (ss ! k))"
    and "dispatched (selectSlide v (Num (of_nat k)) opts s) = dispatched s @
           [\<lparr>event_type = ''slide-content-loaded'', detail_index = k, detail_slide = k\<rparr>]"
  using assms
  by (simp_all add: selectSlide_valid slides_loadSlideContent slides_updateSlideVisibility
      loadSlideContent_def)

text \<open>
  C6, as the code has it. When a slide is selected with a valid index, or the
  pointerenter closure of its thumbnail runs, every descendant of that slide whose
  \<open>data-src\<close> is present and not empty gets that value as its \<open>src\<close> and loses
  \<open>data-src\<close>; every other descendant, in particular one that carries only
  \<open>loading="lazy"\<close>, is left as it was, and \<open>loading\<close> is never changed. One
  \<open>slide-content-loaded\<close> event with detail \<open>{index, slide}\<close> is dispatched by every
  such call, whether or not a source was promoted.
\<close>

theorem loadSlideContent_promotes_deferred:
  assumes "slides s = Some ss" and "k < length ss"
  shows "\<exists>ss'. slides (loadSlideContent k s) = Some ss' \<and> length ss' = length ss \<and>
     length (descendants (ss' ! k)) = length (descendants (ss ! k)) \<and>
     (\<forall>j < length (descendants (ss ! k)).
        loading (descendants (ss' ! k) ! j) = loading (descendants (ss ! k) ! j) \<and>
        descendants (ss' ! k) ! j =
          (case data_src (descendants (ss ! k) ! j) of
             None \<Rightarrow> descendants (ss ! k) ! j
           | Some u \<Rightarrow>
               if u \<noteq> [] then (descendants (ss ! k) ! j)\<lparr>src := Some u, data_src := None\<rparr>
               else descendants (ss ! k) ! j)) \<and>
     dispatched (loadSlideContent k s) = dispatched s @
       [\<lparr>event_type = ''slide-content-loaded'', detail_index = k, detail_slide = k\<rparr>] \<and>
     invokeHandler v (PointerClosure c k) s = loadSlideContent k s \<and>
     descendants (the (slides (selectSlide v (Num (of_nat k)) opts s)) ! k) = descendants (ss' ! k) \<and>
     dispatched (selectSlide v (Num (of_nat k)) opts s) = dispatched (loadSlideContent k s)"
proof -
  let ?ss' = "ss[k := (ss ! k)\<lparr>descendants := map loadElement (descendants (ss ! k))\<rparr>]"
  have s': "slides (loadSlideContent k s) = Some ?ss'"
    using assms by (simp add: slides_loadSlideContent)
  have d: "descendants (?ss' ! k) = map loadElement (descendants (ss ! k))"
    using assms(2) by simp
  have el: "\<forall>j < length (descendants (ss ! k)).
        loading (descendants (?ss' ! k) ! j) = loading (descendants (ss ! k) ! j) \<and>
        descendants (?ss' ! k) ! j =
          (case data_src (descendants (ss ! k) ! j) of
             None \<Rightarrow> descendants (ss ! k) ! j
           | Some u \<Rightarrow>
               if u \<noteq> [] then (descendants (ss ! k) ! j)\<lparr>src := Some u, data_src := None\<rparr>
               else descendants (ss ! k) ! j)"
  proof (intro allI impI conjI)
    fix j
    assume j: "j < length (descendants (ss ! k))"
    then show "loading (descendants (?ss' ! k) ! j) = loading (descendants (ss ! k) ! j)"
      unfolding d by simp
    from j have "descendants (?ss' ! k) ! j = loadElement (descendants (ss ! k) ! j)"
      unfolding d by simp
    then show "descendants (?ss' ! k) ! j =
          (case data_src (descendants (ss ! k) ! j) of
             None \<Rightarrow> descendants (ss ! k) ! j
           | Some u \<Rightarrow>
               if u \<noteq> [] then (descendants (ss ! k) ! j)\<lparr>src := Some u, data_src := None\<rparr>
               else descendants (ss ! k) ! j)"
      by (simp only: loadElement_cases)
  qed
  have p: "invokeHandler v (PointerClosure c k) s = loadSlideContent k s"
    by (simp add: invokeHandler_def)
  have len: "length ?ss' = length ss"
    "length (descendants (?ss' ! k)) = length (descendants (ss ! k))"
    unfolding d by simp_all
  have dl: "dispatched (loadSlideContent k s) = dispatched s @
       [\<lparr>event_type = ''slide-content-loaded'', detail_index = k, detail_slide = k\<rparr>]"
    by (rule dispatched_loadSlideContent [OF assms])
  have sd: "descendants (the (slides (selectSlide v (Num (of_nat k)) opts s)) ! k)
              = descendants (?ss' ! k)"
    by (simp only: selectSlide_loads(1) [OF assms] d)
  have dd: "dispatched (selectSlide v (Num (of_nat k)) opts s) = dispatched (loadSlideContent k s)"
    by (simp only: selectSlide_loads(2) [OF assms] dl)
  from s' len el dl p sd dd show ?thesis by blast
qed

theorem loadSlideContent_promotes_deferred_witness:
  "slides (attachedLazy First) \<noteq> None \<and>
   (0::nat) < length (the (slides (attachedLazy First))) \<and>
   descendants (the (slides (loadSlideContent 0 (attachedLazy First))) ! 0) ! 0 = lazyImage \<and>
   descendants (the (slides (loadSlideContent 0 (attachedLazy First))) ! 0) ! 1
     = deferredImage\<lparr>src := Some ''b.jpg'', data_src := None\<rparr> \<and>
   dispatched (loadSlideContent 0 (attachedLazy First))
     = [\<lparr>event_type = ''slide-content-loaded'', detail_index = 0, detail_slide = 0\<rparr>] \<and>
   dispatched (selectSlide First (Num 0) default_options (attachedLazy First))
     = dispatched (loadSlideContent 0 (attachedLazy First))"
proof -
  let ?s = "attachedLazy First"
  have a: "slides ?s \<noteq> None" by code_simp
  have b: "(0::nat) < length (the (slides ?s))" by code_simp
  have ds: "descendants (the (slides ?s) ! 0) = [lazyImage, deferredImage]" by code_simp
  have d0: "dispatched ?s = []" by code_simp
  have l: "data_src lazyImage = None" and f: "data_src deferredImage = Some ''b.jpg''"
    by (simp_all add: lazyImage_def deferredImage_def)
  from a have a': "slides ?s = Some (the (slides ?s))" by simp
  from loadSlideContent_promotes_deferred [OF a' b, of First 0 default_options]
  obtain ss' where
    s': "slides (loadSlideContent 0 ?s) = Some ss'" and
    el: "\<forall>j < length (descendants (the (slides ?s) ! 0)).
        descendants (ss' ! 0) ! j =
          (case data_src (descendants (the (slides ?s) ! 0) ! j) of
             None \<Rightarrow> descendants (the (slides ?s) ! 0) ! j
           | Some u \<Rightarrow>
               if u \<noteq> []
               then (descendants (the (slides ?s) ! 0) ! j)\<lparr>src := Some u, data_src := None\<rparr>
               else descendants (the (slides ?s) ! 0) ! j)" and
    dl: "dispatched (loadSlideContent 0 ?s) = dispatched ?s @
       [\<lparr>event_type = ''slide-content-loaded'', detail_index = 0, detail_slide = 0\<rparr>]" and
    dd: "dispatched (selectSlide First (Num (of_nat 0)) default_options ?s)
           = dispatched (loadSlideContent 0 ?s)"
    by blast
  from el have e0: "descendants (ss' ! 0) ! 0 = lazyImage"
    unfolding ds by (simp add: l)
  from el have "descendants (ss' ! 0) ! Suc 0
      = (case data_src ([lazyImage, deferredImage] ! Suc 0) of
             None \<Rightarrow> [lazyImage, deferredImage] ! Suc 0
           | Some u \<Rightarrow>
               if u \<noteq> []
               then ([lazyImage, deferredImage] ! Suc 0)\<lparr>src := Some u, data_src := None\<rparr>
               else [lazyImage, deferredImage] ! Suc 0)"
    unfolding ds by simp
  then have e1: "descendants (ss' ! 0) ! 1 = deferredImage\<lparr>src := Some ''b.jpg'', data_src := None\<rparr>"
    by (simp add: f)
  from a b s' e0 e1 dl dd show ?thesis
    by (simp add: d0)
qed

text \<open>
  The claim as the specification words it fails for an element that carries only the
  lazy-loading marker: it is selected by the query, it is not given a source, and its
  marker stays.
\<close>

theorem lazy_marker_not_promoted:
  "carriesMarker lazyImage \<and>
   descendants (the (slides (selectSlide First (Num 0) default_options (attachedLazy First))) ! 0)
     = [lazyImage, deferredImage\<lparr>src := Some ''b.jpg'', data_src := None\<rparr>] \<and>
   loading lazyImage = Some ''lazy'' \<and>
   \<not> promotedFrom lazyImage lazyImage"
  by code_simp

section \<open>The scroll guard\<close>

text \<open>A run of the debounced body that starts while the flag is set does nothing.\<close>

lemma handleScroll_guard: "isScrolling s \<Longrightarrow> handleScroll s = s"
  by (simp add: handleScroll_def)

text \<open>
  C4. The claim is that while \<open>#isScrolling\<close> is set no reactive recomputation
  overwrites what \<open>selectSlide\<close> wrote. The code tests the flag once, before the
  \<open>await\<close>. In the run below the body starts with the flag clear, \<open>selectSlide(3)\<close> is
  called while the intersection entries are awaited, and when they arrive the rest of
  the body marks slide 0 visible and thumbnail 0 selected again, with the flag still
  set and its timeout still pending. Both variants behave so.
\<close>

theorem stale_recomputation_overwrites_selection:
  "\<not> isScrolling (attachedFive Second) \<and>
   observers (awaitingEntries Second) = 1 \<and>
   isScrolling (selectedDuringAwait Second) \<and>
   visibleSlides (selectedDuringAwait Second) = [3] \<and>
   selectedThumbnails (selectedDuringAwait Second) = [3] \<and>
   isScrolling (afterStaleEntries Second) \<and>
   timers (afterStaleEntries Second) = [(1, 300)] \<and>
   visibleSlides (afterStaleEntries Second) = [0] \<and>
   selectedThumbnails (afterStaleEntries Second) = [0] \<and>
   isScrolling (afterStaleEntries First) \<and>
   visibleSlides (selectedDuringAwait First) = [3] \<and>
   visibleSlides (afterStaleEntries First) = [0] \<and>
   selectedThumbnails (afterStaleEntries First) = [0]"
  by code_simp

section \<open>Removal from the document\<close>

text \<open>
  C8. The claim is that \<open>disconnectedCallback\<close> detaches every listener the component
  attached and cancels any pending timeout. Evaluated on the five-slide document: the
  second variant removes the scroll and wheel listeners but leaves the click and
  pointerenter closures on every thumbnail button (a click still selects), where the
  first variant, which stores the closures, removes them; and after two selections in
  quick succession either variant cancels only the later of the two pending timeouts.
\<close>

theorem second_variant_keeps_thumbnail_listeners:
  "map listeners (the (thumbnailButtons (attachedFive Second)))
     = [[(''click'', ClickClosure 0 0), (''pointerenter'', PointerClosure 1 0)],
        [(''click'', ClickClosure 2 1), (''pointerenter'', PointerClosure 3 1)],
        [(''click'', ClickClosure 4 2), (''pointerenter'', PointerClosure 5 2)],
        [(''click'', ClickClosure 6 3), (''pointerenter'', PointerClosure 7 3)],
        [(''click'', ClickClosure 8 4), (''pointerenter'', PointerClosure 9 4)]] \<and>
   map listeners (the (thumbnailButtons (disconnectedCallback Second (attachedFive Second))))
     = map listeners (the (thumbnailButtons (attachedFive Second))) \<and>
   containerListeners (attachedFive Second) = [(''scroll'', HandleScroll), (''wheel'', HandleWheel)] \<and>
   containerListeners (disconnectedCallback Second (attachedFive Second)) = [] \<and>
   visibleSlides (dispatchOnButton Second ''click'' 3
      (disconnectedCallback Second (attachedFive Second))) = [3] \<and>
   map listeners (the (thumbnailButtons (disconnectedCallback First (attachedFive First))))
     = [[], [], [], [], []] \<and>
   containerListeners (disconnectedCallback First (attachedFive First)) = [] \<and>
   timers (twoSelections First) = [(1, 300), (2, 300)] \<and>
   timers (disconnectedCallback First (twoSelections First)) = [(1, 300)] \<and>
   timers (disconnectedCallback Second (twoSelections Second)) = [(1, 300)]"
  by code_simp

section \<open>The attributes over time\<close>


lemma ariaView_loadSlideContent [simp]: "ariaView (loadSlideContent k s) = ariaView s"
proof (cases "slides s")
  case None
  then show ?thesis by (simp add: loadSlideContent_def)
next
  case (Some ss)
  have "k < length ss \<Longrightarrow>
      map aria_hidden (ss[k := (ss ! k)\<lparr>descendants := ds\<rparr>]) = map aria_hidden ss" for ds
    by (simp add: map_update list_update_same_conv)
  with Some show ?thesis
    by (simp add: ariaView_def slides_loadSlideContent)
qed










































text \<open>
  A later insertion starts afresh from the document as it then is: after
  \<open>selectSlide(3)\<close>, removal and insertion, slide 0 is visible again and thumbnail 3
  is still the selected one. And immediately after the first insertion the claim
  fails on a document whose thumbnail buttons carry no \<open>aria-selected\<close>: slide 0 is
  visible and no thumbnail is selected.
\<close>

lemma reattach_rewrites_slides_only:
  "visibleSlides (reattached First) = [0] \<and> selectedThumbnails (reattached First) = [3] \<and>
   \<not> ariaSynced (reattached First) \<and>
   visibleSlides (reattached Second) = [0] \<and> selectedThumbnails (reattached Second) = [3] \<and>
   \<not> ariaSynced (reattached Second)"
  by code_simp


end
